theory Spec2Isabelle
  imports Complex_Main "HOL-Library.Multiset"
begin

section \<open>The BOE downloader (src/boe.py)\<close>

text \<open>
  The program walks a range of calendar days. For each day it looks for the day's PDF on
  disk, asks the summary endpoint which PDFs were published, and downloads them. This
  theory embeds \<^verbatim>\<open>download_pdf\<close>, \<^verbatim>\<open>process_date\<close> and
  \<^verbatim>\<open>download_boe_pdfs\<close> as functions on an explicit world: the files on
  disk, the network (what each request of the run is answered with) and a trace of the
  effects performed (requests, sleeps, writes, printed lines).

  What the libraries do is taken from their documentation: \<^verbatim>\<open>httpx\<close> raises
  subclasses of \<^verbatim>\<open>HTTPError\<close> for transport failures and, in
  \<^verbatim>\<open>raise_for_status\<close>, for a status outside 2xx;
  \<^verbatim>\<open>dict.get\<close> exists on dictionaries only; \<^verbatim>\<open>asyncio.Semaphore\<close>
  refuses a negative initial value. The disk is its regular files and its directories:
  \<^verbatim>\<open>mkdir\<close>, \<^verbatim>\<open>write_bytes\<close> and \<^verbatim>\<open>exists\<close> do what the state of the
  disk makes them do, and raise what \<^verbatim>\<open>pathlib\<close> raises there. A disk that refuses
  an operation for another reason (permissions, no space left) is outside the model.
\<close>

subsection \<open>Constants\<close>

definition API_URL :: string where
  "API_URL = ''https://www.boe.es/datosabiertos/api/boe/sumario/''"

definition MAX_RETRIES :: nat where
  "MAX_RETRIES = 3"

definition RETRY_DELAY :: nat where
  "RETRY_DELAY = 30"

subsection \<open>Dates and paths\<close>

text \<open>
  A \<^verbatim>\<open>datetime\<close>: the calendar day and the time of day (in microseconds; the
  default end date is \<^verbatim>\<open>datetime.now()\<close>).
\<close>

record datetime =
  year :: nat
  month :: nat
  day :: nat
  time_of_day :: nat

fun decimal :: "nat \<Rightarrow> string" where
  "decimal n =
     (if n < 10 then [''0123456789'' ! n]
      else decimal (n div 10) @ [''0123456789'' ! (n mod 10)])"

declare decimal.simps [simp del]

definition zero_pad :: "nat \<Rightarrow> string \<Rightarrow> string" where
  "zero_pad width s = replicate (width - length s) CHR ''0'' @ s"

text \<open>
  \<^verbatim>\<open>date.strftime(fmt)\<close> for the directives the program uses, as CPython prints
  them through the C library of Linux: \<^verbatim>\<open>%Y\<close> is the year in decimal, with no
  leading zeros (\<^verbatim>\<open>999\<close> for the year 999, four digits from the year 1000 on);
  \<^verbatim>\<open>%m\<close> and \<^verbatim>\<open>%d\<close> are the month and the day in two digits. Every other
  character is copied.
\<close>

fun strftime :: "string \<Rightarrow> datetime \<Rightarrow> string" where
  "strftime [] d = []"
| "strftime [c] d = [c]"
| "strftime (c # c' # fmt) d =
     (if c = CHR ''%'' \<and> c' = CHR ''Y'' then decimal (year d) @ strftime fmt d
      else if c = CHR ''%'' \<and> c' = CHR ''m'' then zero_pad 2 (decimal (month d)) @ strftime fmt d
      else if c = CHR ''%'' \<and> c' = CHR ''d'' then zero_pad 2 (decimal (day d)) @ strftime fmt d
      else c # strftime (c' # fmt) d)"

declare strftime.simps [simp del]

text \<open>
  A \<^verbatim>\<open>pathlib.Path\<close> is the list of its parts. \<^verbatim>\<open>path / s\<close> appends the parts
  of the relative path \<^verbatim>\<open>s\<close>: the pieces between its slashes, empty pieces dropped.
\<close>

type_synonym path = "string list"

fun parts :: "string \<Rightarrow> string \<Rightarrow> string list" where
  "parts piece [] = (if piece = [] then [] else [piece])"
| "parts piece (c # s) =
     (if c = CHR ''/'' then (if piece = [] then parts [] s else piece # parts [] s)
      else parts (piece @ [c]) s)"

definition path_div :: "path \<Rightarrow> string \<Rightarrow> path" where
  "path_div p s = p @ parts [] s"

subsection \<open>JSON values, exceptions, the network\<close>

text \<open>
  What \<^verbatim>\<open>response.json()\<close> returns: \<^verbatim>\<open>None\<close>, a bool, a number, a string,
  a list or a dict (its items; a key is looked up with \<^const>\<open>map_of\<close>).
\<close>

datatype json =
  JNull
  | JBool bool
  | JInt int
  | JFloat real
  | JStr string
  | JArr "json list"
  | JObj "(string \<times> json) list"

datatype exn =
  HTTPError string
  | JSONDecodeError
  | AttributeError
  | ValueError
  | OverflowError
  | FileExistsError
  | FileNotFoundError
  | NotADirectoryError
  | IsADirectoryError
  | OtherError string

text \<open>
  \<^verbatim>\<open>except httpx.HTTPError\<close> catches \<^verbatim>\<open>HTTPError\<close> and its subclasses
  (\<^verbatim>\<open>RemoteProtocolError\<close>, timeouts, \<^verbatim>\<open>HTTPStatusError\<close>), here all
  \<^const>\<open>HTTPError\<close>; \<^verbatim>\<open>except Exception\<close> catches every \<^typ>\<open>exn\<close>.
\<close>

fun is_HTTPError :: "exn \<Rightarrow> bool" where
  "is_HTTPError (HTTPError msg) = True"
| "is_HTTPError e = False"

record response =
  status_code :: nat
  content :: string
  json_body :: "json option"

text \<open>
  A request is the URL given to \<^verbatim>\<open>session.get\<close> (any JSON value: the URL of a PDF
  is read from the summary and never checked to be a string) and its headers. The reply is
  a response, or the exception \<^verbatim>\<open>session.get\<close> raises.
\<close>

datatype request = Request json "(string \<times> string) list"

datatype reply = Response response | Failure exn

datatype line =
  FailedAfter nat string exn
  | FailedDownload json string exn
  | Processing nat string string
  | Progress nat nat
  | Completed
  | Downloaded int
  | AlreadyCached int
  | DaysWithoutBOE int
  | Errors int

datatype event =
  Requested request
  | Slept nat
  | MadeDir path
  | Wrote path string
  | Printed line

fun is_request :: "event \<Rightarrow> bool" where
  "is_request (Requested rq) = True"
| "is_request ev = False"

text \<open>
  The world: the regular files and their contents, the directories, the reply of the
  network to the \<open>n\<close>-th request of the run, and the effects so far, oldest first. The
  empty path is the current directory.
\<close>

record world =
  files :: "path \<Rightarrow> string option"
  dirs :: "path set"
  network :: "nat \<Rightarrow> request \<Rightarrow> reply"
  trace :: "event list"

definition requests_made :: "world \<Rightarrow> nat" where
  "requests_made w = length (filter is_request (trace w))"

definition session_get :: "request \<Rightarrow> world \<Rightarrow> reply \<times> world" where
  "session_get rq w = (network w (requests_made w) rq, w\<lparr>trace := trace w @ [Requested rq]\<rparr>)"

definition sleep :: "nat \<Rightarrow> world \<Rightarrow> world" where
  "sleep seconds w = w\<lparr>trace := trace w @ [Slept seconds]\<rparr>"

definition print :: "line \<Rightarrow> world \<Rightarrow> world" where
  "print l w = w\<lparr>trace := trace w @ [Printed l]\<rparr>"

definition is_dir :: "world \<Rightarrow> path \<Rightarrow> bool" where
  "is_dir w p = (p = [] \<or> p \<in> dirs w)"

text \<open>\<^verbatim>\<open>p.exists()\<close>: a regular file or a directory is there.\<close>

definition path_exists :: "path \<Rightarrow> world \<Rightarrow> bool" where
  "path_exists p w = (files w p \<noteq> None \<or> is_dir w p)"

text \<open>The paths above a path, from the top down, and the path itself last.\<close>

fun path_prefixes :: "path \<Rightarrow> path list" where
  "path_prefixes [] = []"
| "path_prefixes (x # xs) = [x] # map ((#) x) (path_prefixes xs)"

definition file_above :: "world \<Rightarrow> path \<Rightarrow> bool" where
  "file_above w p = list_ex (\<lambda>q. files w q \<noteq> None) (butlast (path_prefixes p))"

text \<open>
  \<^verbatim>\<open>p.mkdir(exist_ok=True)\<close>: nothing to do for a directory that is there;
  \<^verbatim>\<open>FileExistsError\<close> for a regular file of that name; the directory is made when
  its parent is a directory; otherwise \<^verbatim>\<open>NotADirectoryError\<close> when a regular file
  stands in the way above it, and \<^verbatim>\<open>FileNotFoundError\<close> when the parent is missing.
\<close>

definition mkdir :: "path \<Rightarrow> world \<Rightarrow> (exn + unit) \<times> world" where
  "mkdir p w =
     (if is_dir w p then (Inr (), w)
      else if files w p \<noteq> None then (Inl FileExistsError, w)
      else if is_dir w (butlast p)
        then (Inr (), w\<lparr>dirs := insert p (dirs w), trace := trace w @ [MadeDir p]\<rparr>)
      else if file_above w p then (Inl NotADirectoryError, w)
      else (Inl FileNotFoundError, w))"

text \<open>
  \<^verbatim>\<open>p.mkdir(parents=True, exist_ok=True)\<close>: the missing directories above \<open>p\<close> are
  made from the top down, and then \<open>p\<close>.
\<close>

fun mkdir_each :: "path list \<Rightarrow> world \<Rightarrow> (exn + unit) \<times> world" where
  "mkdir_each [] w = (Inr (), w)"
| "mkdir_each (q # qs) w =
     (case mkdir q w of
        (Inl e, w1) \<Rightarrow> (Inl e, w1)
      | (Inr u, w1) \<Rightarrow> mkdir_each qs w1)"

definition mkdir_parents :: "path \<Rightarrow> world \<Rightarrow> (exn + unit) \<times> world" where
  "mkdir_parents p w =
     (if file_above w p then (Inl NotADirectoryError, w) else mkdir_each (path_prefixes p) w)"

text \<open>
  \<^verbatim>\<open>p.write_bytes(bytes)\<close>: the file is created or replaced when its parent is a
  directory and \<open>p\<close> is not one.
\<close>

definition write_bytes :: "path \<Rightarrow> string \<Rightarrow> world \<Rightarrow> (exn + unit) \<times> world" where
  "write_bytes p bytes w =
     (if is_dir w p then (Inl IsADirectoryError, w)
      else if file_above w p then (Inl NotADirectoryError, w)
      else if \<not> is_dir w (butlast p) then (Inl FileNotFoundError, w)
      else (Inr (), w\<lparr>files := (files w)(p \<mapsto> bytes), trace := trace w @ [Wrote p bytes]\<rparr>))"

definition raise_for_status :: "response \<Rightarrow> exn + unit" where
  "raise_for_status r =
     (if 200 \<le> status_code r \<and> status_code r < 300 then Inr ()
      else Inl (HTTPError ''status''))"

subsection \<open>download_pdf\<close>

text \<open>The body of the \<^verbatim>\<open>try\<close> of \<^verbatim>\<open>download_pdf\<close>.\<close>

definition try_download :: "json \<Rightarrow> path \<Rightarrow> world \<Rightarrow> (exn + unit) \<times> world" where
  "try_download url p w =
     (case session_get (Request url []) w of
        (Failure e, w1) \<Rightarrow> (Inl e, w1)
      | (Response r, w1) \<Rightarrow>
          (case raise_for_status r of
             Inl e \<Rightarrow> (Inl e, w1)
           | Inr u \<Rightarrow>
               (case mkdir_parents (butlast p) w1 of
                  (Inl e, w2) \<Rightarrow> (Inl e, w2)
                | (Inr u', w2) \<Rightarrow> write_bytes p (content r) w2)))"

text \<open>
  The loop \<^verbatim>\<open>for attempt in range(MAX_RETRIES)\<close> over the attempts that are left. An
  exception that is not an \<^verbatim>\<open>HTTPError\<close> (one of the disk among them) leaves the
  function at once.
\<close>

fun download_attempts :: "nat list \<Rightarrow> json \<Rightarrow> path \<Rightarrow> world \<Rightarrow> (exn + unit) \<times> world" where
  "download_attempts [] url p w = (Inr (), w)"
| "download_attempts (attempt # rest) url p w =
     (case try_download url p w of
        (Inr u, w1) \<Rightarrow> (Inr (), w1)
      | (Inl e, w1) \<Rightarrow>
          if is_HTTPError e then
            (if attempt < MAX_RETRIES - 1
             then download_attempts rest url p (sleep (RETRY_DELAY * (attempt + 1)) w1)
             else (Inl e, w1))
          else (Inl e, w1))"

definition download_pdf :: "json \<Rightarrow> path \<Rightarrow> world \<Rightarrow> (exn + unit) \<times> world" where
  "download_pdf url p w = download_attempts [0..<MAX_RETRIES] url p w"

subsection \<open>process_date\<close>

definition summary_request :: "string \<Rightarrow> request" where
  "summary_request date_str = Request (JStr (API_URL @ date_str)) [(''Accept'', ''application/json'')]"

text \<open>
  How the summary loop is left: by one of its \<^verbatim>\<open>return\<close>s, or with
  \<^verbatim>\<open>data\<close> (after \<^verbatim>\<open>break\<close>, or \<^verbatim>\<open>None\<close> when the range is used up).
\<close>

datatype loop_exit = Returned "int \<times> string" | Data json

text \<open>The body of the \<^verbatim>\<open>try\<close> of the summary loop.\<close>

definition try_summary :: "string \<Rightarrow> world \<Rightarrow> (exn + loop_exit) \<times> world" where
  "try_summary date_str w =
     (case session_get (summary_request date_str) w of
        (Failure e, w1) \<Rightarrow> (Inl e, w1)
      | (Response r, w1) \<Rightarrow>
          if status_code r = 404 then (Inr (Returned (0, ''no_boe'')), w1)
          else
            (case raise_for_status r of
               Inl e \<Rightarrow> (Inl e, w1)
             | Inr u \<Rightarrow>
                 (case json_body r of
                    None \<Rightarrow> (Inl JSONDecodeError, w1)
                  | Some data \<Rightarrow> (Inr (Data data), w1))))"

fun fetch_summary :: "nat list \<Rightarrow> string \<Rightarrow> world \<Rightarrow> (exn + loop_exit) \<times> world" where
  "fetch_summary [] date_str w = (Inr (Data JNull), w)"
| "fetch_summary (attempt # rest) date_str w =
     (case try_summary date_str w of
        (Inr x, w1) \<Rightarrow> (Inr x, w1)
      | (Inl e, w1) \<Rightarrow>
          if is_HTTPError e then
            (if attempt < MAX_RETRIES - 1
             then fetch_summary rest date_str (sleep (RETRY_DELAY * (attempt + 1)) w1)
             else (Inr (Returned (0, ''error'')), print (FailedAfter MAX_RETRIES date_str e) w1))
          else (Inl e, w1))"

text \<open>\<^verbatim>\<open>d.get(key, default)\<close>: only a dict has the method.\<close>

fun py_get :: "json \<Rightarrow> string \<Rightarrow> json \<Rightarrow> exn + json" where
  "py_get (JObj items) k dflt = Inr (case map_of items k of None \<Rightarrow> dflt | Some v \<Rightarrow> v)"
| "py_get v k dflt = Inl AttributeError"

text \<open>The truth value Python gives a JSON value.\<close>

fun truthy :: "json \<Rightarrow> bool" where
  "truthy JNull = False"
| "truthy (JBool b) = b"
| "truthy (JInt n) = (n \<noteq> 0)"
| "truthy (JFloat x) = (x \<noteq> 0)"
| "truthy (JStr s) = (s \<noteq> [])"
| "truthy (JArr xs) = (xs \<noteq> [])"
| "truthy (JObj items) = (items \<noteq> [])"

text \<open>The loop \<^verbatim>\<open>for diario in diarios\<close>, appending to \<^verbatim>\<open>pdfs\<close>.\<close>

fun collect_pdfs :: "json list \<Rightarrow> (json \<times> json) list \<Rightarrow> exn + (json \<times> json) list" where
  "collect_pdfs [] pdfs = Inr pdfs"
| "collect_pdfs (diario # rest) pdfs =
     (case py_get diario ''sumario_diario'' (JObj []) of
        Inl e \<Rightarrow> Inl e
      | Inr sumario \<Rightarrow>
          (case py_get sumario ''url_pdf'' (JObj []) of
             Inl e \<Rightarrow> Inl e
           | Inr url_pdf \<Rightarrow>
               (case py_get url_pdf ''texto'' JNull of
                  Inl e \<Rightarrow> Inl e
                | Inr pdf_url \<Rightarrow>
                    if truthy pdf_url then
                      (case py_get sumario ''identificador'' (JStr ''unknown'') of
                         Inl e \<Rightarrow> Inl e
                       | Inr identifier \<Rightarrow> collect_pdfs rest (pdfs @ [(pdf_url, identifier)]))
                    else collect_pdfs rest pdfs)))"

definition extract_pdfs :: "json \<Rightarrow> exn + (json \<times> json) list" where
  "extract_pdfs data =
     (case py_get data ''data'' (JObj []) of
        Inl e \<Rightarrow> Inl e
      | Inr v1 \<Rightarrow>
          (case py_get v1 ''sumario'' (JObj []) of
             Inl e \<Rightarrow> Inl e
           | Inr v2 \<Rightarrow>
               (case py_get v2 ''diario'' (JArr []) of
                  Inl e \<Rightarrow> Inl e
                | Inr diarios \<Rightarrow>
                    collect_pdfs (case diarios of JArr ds \<Rightarrow> ds | v \<Rightarrow> [v]) [])))"

definition pdf_path_of :: "path \<Rightarrow> datetime \<Rightarrow> path" where
  "pdf_path_of output_dir date = path_div (path_div output_dir (strftime ''%Y/%m/%d'' date)) ''boe.pdf''"

text \<open>The loop \<^verbatim>\<open>for pdf_url, identifier in pdfs\<close>, with the counter \<^verbatim>\<open>downloaded\<close>.\<close>

fun download_all ::
  "(json \<times> json) list \<Rightarrow> datetime \<Rightarrow> path \<Rightarrow> string \<Rightarrow> int \<Rightarrow> world \<Rightarrow> int \<times> world" where
  "download_all [] date output_dir date_str downloaded w = (downloaded, w)"
| "download_all ((pdf_url, identifier) # rest) date output_dir date_str downloaded w =
     (case download_pdf pdf_url (pdf_path_of output_dir date) w of
        (Inr u, w1) \<Rightarrow> download_all rest date output_dir date_str (downloaded + 1) w1
      | (Inl e, w1) \<Rightarrow>
          download_all rest date output_dir date_str downloaded
            (print (FailedDownload identifier date_str e) w1))"

definition process_date :: "datetime \<Rightarrow> path \<Rightarrow> world \<Rightarrow> (exn + int \<times> string) \<times> world" where
  "process_date date output_dir w =
     (let date_str = strftime ''%Y%m%d'' date in
      if path_exists (pdf_path_of output_dir date) w then (Inr (0, ''cached''), w)
      else
        (case fetch_summary [0..<MAX_RETRIES] date_str w of
           (Inl e, w1) \<Rightarrow> (Inl e, w1)
         | (Inr (Returned outcome), w1) \<Rightarrow> (Inr outcome, w1)
         | (Inr (Data data), w1) \<Rightarrow>
             if data = JNull then (Inr (0, ''error''), w1)
             else
               (case extract_pdfs data of
                  Inl e \<Rightarrow> (Inl e, w1)
                | Inr pdfs \<Rightarrow>
                    (case download_all pdfs date output_dir date_str 0 w1 of
                       (downloaded, w2) \<Rightarrow> (Inr (downloaded, ''success''), w2)))))"

subsection \<open>download_boe_pdfs\<close>

text \<open>
  \<^verbatim>\<open>a <= b\<close> on naive datetimes, and \<^verbatim>\<open>d + timedelta(days=1)\<close>, which raises
  \<^verbatim>\<open>OverflowError\<close> past the last day of the year 9999.
\<close>

definition datetime_le :: "datetime \<Rightarrow> datetime \<Rightarrow> bool" where
  "datetime_le a b =
     (year a < year b \<or> (year a = year b \<and>
       (month a < month b \<or> (month a = month b \<and>
         (day a < day b \<or> (day a = day b \<and> time_of_day a \<le> time_of_day b))))))"

definition days_in_month :: "nat \<Rightarrow> nat \<Rightarrow> nat" where
  "days_in_month y m =
     (if m = 2 then (if y mod 4 = 0 \<and> (y mod 100 \<noteq> 0 \<or> y mod 400 = 0) then 29 else 28)
      else if m = 4 \<or> m = 6 \<or> m = 9 \<or> m = 11 then 30
      else 31)"

definition add_day :: "datetime \<Rightarrow> exn + datetime" where
  "add_day d =
     (if day d < days_in_month (year d) (month d) then Inr (d\<lparr>day := day d + 1\<rparr>)
      else if month d < 12 then Inr (d\<lparr>month := month d + 1, day := 1\<rparr>)
      else if year d < 9999 then Inr (d\<lparr>year := year d + 1, month := 1, day := 1\<rparr>)
      else Inl OverflowError)"

text \<open>The loop \<^verbatim>\<open>while current <= end_date\<close>, appending to \<^verbatim>\<open>dates\<close>.\<close>

function dates_from :: "datetime \<Rightarrow> datetime \<Rightarrow> datetime list \<Rightarrow> exn + datetime list" where
  "dates_from current end_date dates =
     (if datetime_le current end_date then
        (case add_day current of
           Inl e \<Rightarrow> Inl e
         | Inr next_day \<Rightarrow> dates_from next_day end_date (dates @ [current]))
      else Inr dates)"
  by pat_completeness auto
termination
  by (relation "measures [\<lambda>(c, e, ds). 9999 - year c, \<lambda>(c, e, ds). 12 - month c,
                          \<lambda>(c, e, ds). days_in_month (year c) (month c) - day c]")
     (auto simp: add_day_def split: if_splits)

declare dates_from.simps [simp del]

text \<open>The dict \<^verbatim>\<open>stats\<close>: its four keys.\<close>

record stats =
  downloaded :: int
  no_boe :: int
  errors :: int
  cached :: int

text \<open>The body of the loop over \<^verbatim>\<open>results\<close>: what one result adds to \<^verbatim>\<open>stats\<close>.\<close>

definition tally :: "stats \<Rightarrow> int \<times> string \<Rightarrow> stats" where
  "tally st result =
     (case result of (cnt, status) \<Rightarrow>
        (let st1 = st\<lparr>downloaded := downloaded st + cnt\<rparr> in
         if status = ''no_boe'' then st1\<lparr>no_boe := no_boe st1 + 1\<rparr>
         else if status = ''error'' then st1\<lparr>errors := errors st1 + 1\<rparr>
         else if status = ''cached'' then st1\<lparr>cached := cached st1 + 1\<rparr>
         else st1))"

text \<open>
  The loop \<^verbatim>\<open>for i, result in enumerate(results)\<close>, from index \<open>i\<close> on;
  \<open>n_dates\<close> is \<^verbatim>\<open>len(dates)\<close>. The elapsed time of a progress line is left out.
\<close>

fun aggregate :: "nat \<Rightarrow> (int \<times> string) list \<Rightarrow> nat \<Rightarrow> stats \<Rightarrow> world \<Rightarrow> stats \<times> world" where
  "aggregate i [] n_dates st w = (st, w)"
| "aggregate i (result # rest) n_dates st w =
     aggregate (i + 1) rest n_dates (tally st result)
       (if (i + 1) mod 365 = 0 then print (Progress (i + 1) n_dates) w else w)"

text \<open>
  \<^verbatim>\<open>asyncio.gather\<close> over the tasks, one per date: the results in the order of the
  dates, or the first exception a task raises. The days are run one after the other, the
  schedule of a limit of 1; under a larger limit the requests of several days interleave,
  and each day still runs \<^const>\<open>process_date\<close> against the replies it meets.
\<close>

fun gather :: "datetime list \<Rightarrow> path \<Rightarrow> world \<Rightarrow> (exn + (int \<times> string) list) \<times> world" where
  "gather [] output_dir w = (Inr [], w)"
| "gather (date # rest) output_dir w =
     (case process_date date output_dir w of
        (Inl e, w1) \<Rightarrow> (Inl e, w1)
      | (Inr result, w1) \<Rightarrow>
          (case gather rest output_dir w1 of
             (Inl e, w2) \<Rightarrow> (Inl e, w2)
           | (Inr results, w2) \<Rightarrow> (Inr (result # results), w2)))"

definition report :: "stats \<Rightarrow> world \<Rightarrow> world" where
  "report st w =
     print (Errors (errors st))
       (print (DaysWithoutBOE (no_boe st))
          (print (AlreadyCached (cached st))
             (print (Downloaded (downloaded st))
                (print Completed w))))"

text \<open>
  \<^verbatim>\<open>download_boe_pdfs\<close> returns nothing; what it reports is in the trace. It
  raises when \<^verbatim>\<open>output_dir.mkdir(exist_ok=True)\<close> does (the call makes no parents).
  The result is \<open>None\<close> when the call never returns: with a limit of 0 no task is ever
  admitted, and \<^verbatim>\<open>gather\<close> waits for the tasks for ever.
  \<^verbatim>\<open>asyncio.Semaphore(concurrency)\<close> raises \<^verbatim>\<open>ValueError\<close> for a negative value.
\<close>

definition download_boe_pdfs ::
  "datetime \<Rightarrow> datetime \<Rightarrow> int \<Rightarrow> path \<Rightarrow> world \<Rightarrow> ((exn + unit) \<times> world) option" where
  "download_boe_pdfs start_date end_date concurrency output_dir w =
     (case mkdir output_dir w of
        (Inl e, w0) \<Rightarrow> Some (Inl e, w0)
      | (Inr u, w0) \<Rightarrow>
          (case dates_from start_date end_date [] of
             Inl e \<Rightarrow> Some (Inl e, w0)
           | Inr dates \<Rightarrow>
               (let w1 = print (Processing (length dates) (strftime ''%Y-%m-%d'' start_date)
                                  (strftime ''%Y-%m-%d'' end_date)) w0;
                    st = \<lparr>downloaded = 0, no_boe = 0, errors = 0, cached = 0\<rparr>
                in
                  if concurrency < 0 then Some (Inl ValueError, w1)
                  else if concurrency = 0 \<and> dates \<noteq> [] then None
                  else
                    (case gather dates output_dir w1 of
                       (Inl e, w2) \<Rightarrow> Some (Inl e, w2)
                     | (Inr results, w2) \<Rightarrow>
                         (case aggregate 0 results (length dates) st w2 of
                            (st', w3) \<Rightarrow> Some (Inr (), report st' w3))))))"

subsection \<open>The semaphore of process_with_limit\<close>

text \<open>
  Every task runs \<^verbatim>\<open>async with sem: return await process_date(...)\<close> on the one
  semaphore created before the tasks. A task waits for the semaphore, holds it while
  \<^verbatim>\<open>process_date\<close> runs (through all its requests and sleeps, during which the event
  loop runs other tasks), and gives it back when \<^verbatim>\<open>process_date\<close> returns or
  raises. The state is the value of the semaphore and the state of every task; the event
  loop resumes one task at a time: to take the semaphore, to go on with
  \<^verbatim>\<open>process_date\<close> at one of its awaits (only a task that holds the semaphore is
  there), or to leave \<^verbatim>\<open>async with\<close>.
\<close>

datatype task = Waiting | Holding | Finished

datatype resume = Acquire nat | Advance nat | Release nat

fun sem_step :: "resume \<Rightarrow> nat \<times> task list \<Rightarrow> (nat \<times> task list) option" where
  "sem_step (Acquire i) (sem, tasks) =
     (if i < length tasks \<and> tasks ! i = Waiting \<and> 0 < sem
      then Some (sem - 1, tasks[i := Holding]) else None)"
| "sem_step (Advance i) (sem, tasks) =
     (if i < length tasks \<and> tasks ! i = Holding then Some (sem, tasks) else None)"
| "sem_step (Release i) (sem, tasks) =
     (if i < length tasks \<and> tasks ! i = Holding
      then Some (sem + 1, tasks[i := Finished]) else None)"

fun sem_run :: "resume list \<Rightarrow> nat \<times> task list \<Rightarrow> (nat \<times> task list) option" where
  "sem_run [] s = Some s"
| "sem_run (r # rs) s = (case sem_step r s of None \<Rightarrow> None | Some s' \<Rightarrow> sem_run rs s')"

text \<open>
  The state after \<^verbatim>\<open>sem = asyncio.Semaphore(concurrency)\<close> and the creation of one
  task per date; there is none when the constructor raises.
\<close>

definition sem_start :: "int \<Rightarrow> datetime list \<Rightarrow> (nat \<times> task list) option" where
  "sem_start concurrency dates =
     (if concurrency < 0 then None else Some (nat concurrency, map (\<lambda>date. Waiting) dates))"

definition in_flight :: "nat \<times> task list \<Rightarrow> nat" where
  "in_flight s = length (filter (\<lambda>t. t = Holding) (snd s))"

subsection \<open>Observations\<close>

text \<open>The delays slept and the files written in a piece of the trace.\<close>

fun sleeps :: "event list \<Rightarrow> nat list" where
  "sleeps [] = []"
| "sleeps (Slept n # evs) = n # sleeps evs"
| "sleeps (ev # evs) = sleeps evs"

fun writes :: "event list \<Rightarrow> (path \<times> string) list" where
  "writes [] = []"
| "writes (Wrote p bytes # evs) = (p, bytes) # writes evs"
| "writes (ev # evs) = writes evs"

text \<open>A piece of the trace with no request, no sleep and no write in it.\<close>

definition silent :: "event list \<Rightarrow> bool" where
  "silent evs = (filter is_request evs = [] \<and> sleeps evs = [] \<and> writes evs = [])"

text \<open>
  The exception a reply ends an attempt with, when it is one the retry loops catch: an
  \<^verbatim>\<open>HTTPError\<close> raised by \<^verbatim>\<open>session.get\<close>, or a status outside 2xx.
\<close>

fun http_failure :: "reply \<Rightarrow> exn option" where
  "http_failure (Failure e) = (if is_HTTPError e then Some e else None)"
| "http_failure (Response r) = (case raise_for_status r of Inl e \<Rightarrow> Some e | Inr u \<Rightarrow> None)"

fun is_404 :: "reply \<Rightarrow> bool" where
  "is_404 (Response r) = (status_code r = 404)"
| "is_404 (Failure e) = False"

definition count_status :: "string \<Rightarrow> (int \<times> string) list \<Rightarrow> int" where
  "count_status status results = int (length (filter (\<lambda>r. snd r = status) results))"

text \<open>
  Reading a summary: \<open>field v k dflt\<close> is \<^verbatim>\<open>v.get(k, dflt)\<close> of a dict \<open>v\<close>; the
  entries of a summary, and the URL and the identifier of an entry, are read along the
  keys the program reads them by. A summary is shaped when every field read on the way
  is missing or has the kind the program expects: dicts along \<^verbatim>\<open>data.sumario\<close>, a
  dict or a list of dicts at \<^verbatim>\<open>diario\<close>, dicts at \<^verbatim>\<open>sumario_diario\<close> and
  \<^verbatim>\<open>url_pdf\<close>.
\<close>

fun is_dict :: "json \<Rightarrow> bool" where
  "is_dict (JObj items) = True"
| "is_dict v = False"

definition field :: "json \<Rightarrow> string \<Rightarrow> json \<Rightarrow> json" where
  "field v k dflt = (case py_get v k dflt of Inl e \<Rightarrow> dflt | Inr x \<Rightarrow> x)"

definition diarios_of :: "json \<Rightarrow> json list" where
  "diarios_of data =
     (case field (field (field data ''data'' (JObj [])) ''sumario'' (JObj [])) ''diario'' (JArr []) of
        JArr ds \<Rightarrow> ds
      | v \<Rightarrow> [v])"

definition entry_url :: "json \<Rightarrow> json" where
  "entry_url diario =
     field (field (field diario ''sumario_diario'' (JObj [])) ''url_pdf'' (JObj [])) ''texto'' JNull"

definition entry_identifier :: "json \<Rightarrow> json" where
  "entry_identifier diario =
     field (field diario ''sumario_diario'' (JObj [])) ''identificador'' (JStr ''unknown'')"

definition entry_shaped :: "json \<Rightarrow> bool" where
  "entry_shaped diario =
     (let sumario = field diario ''sumario_diario'' (JObj []);
          url_pdf = field sumario ''url_pdf'' (JObj [])
      in is_dict diario \<and> is_dict sumario \<and> is_dict url_pdf)"

definition summary_shaped :: "json \<Rightarrow> bool" where
  "summary_shaped data =
     (let v1 = field data ''data'' (JObj []);
          v2 = field v1 ''sumario'' (JObj [])
      in is_dict data \<and> is_dict v1 \<and> is_dict v2 \<and> list_all entry_shaped (diarios_of data))"

subsection \<open>Example runs\<close>

text \<open>Days, responses, and worlds with nothing on disk and an empty trace.\<close>

definition day1 :: datetime where
  "day1 = \<lparr>year = 2024, month = 1, day = 7, time_of_day = 0\<rparr>"

definition day2 :: datetime where
  "day2 = \<lparr>year = 2024, month = 1, day = 8, time_of_day = 0\<rparr>"

definition day999 :: datetime where
  "day999 = \<lparr>year = 999, month = 1, day = 1, time_of_day = 0\<rparr>"

definition pdf_response :: "string \<Rightarrow> response" where
  "pdf_response bytes = \<lparr>status_code = 200, content = bytes, json_body = None\<rparr>"

definition status_response :: "nat \<Rightarrow> response" where
  "status_response n = \<lparr>status_code = n, content = [], json_body = None\<rparr>"

definition json_response :: "json \<Rightarrow> response" where
  "json_response v = \<lparr>status_code = 200, content = [], json_body = Some v\<rparr>"

definition world_of :: "(nat \<Rightarrow> request \<Rightarrow> reply) \<Rightarrow> world" where
  "world_of net = \<lparr>files = Map.empty, dirs = {}, network = net, trace = []\<rparr>"

definition offline :: "nat \<Rightarrow> request \<Rightarrow> reply" where
  "offline n rq = Failure (HTTPError ''timeout'')"

definition not_found :: "nat \<Rightarrow> request \<Rightarrow> reply" where
  "not_found n rq = Response (status_response 404)"

definition error_then_404 :: "nat \<Rightarrow> request \<Rightarrow> reply" where
  "error_then_404 n rq = Response (status_response (if n = 0 then 500 else 404))"

definition error_then_empty :: "nat \<Rightarrow> request \<Rightarrow> reply" where
  "error_then_empty n rq =
     Response (if n = 0 then status_response 500 else json_response (JObj []))"

text \<open>A disk with the PDF of 2024-01-07, and one with a PDF under \<^verbatim>\<open>boe/0999/01/01\<close>.\<close>

definition cached_world :: world where
  "cached_world =
     \<lparr>files = [[''boe'', ''2024'', ''01'', ''07'', ''boe.pdf''] \<mapsto> ''%PDF''],
      dirs = {[''boe'', ''2024'', ''01'', ''07''], [''boe'', ''2024'', ''01''], [''boe'', ''2024''],
              [''boe'']},
      network = offline, trace = []\<rparr>"

definition padded_world :: world where
  "padded_world =
     \<lparr>files = [[''boe'', ''0999'', ''01'', ''01'', ''boe.pdf''] \<mapsto> ''%PDF''],
      dirs = {[''boe'', ''0999'', ''01'', ''01''], [''boe'', ''0999'', ''01''], [''boe'', ''0999''],
              [''boe'']},
      network = not_found, trace = []\<rparr>"

text \<open>
  A summary of three entries, and a network that serves it, answers 500 for the second
  PDF and serves the others.
\<close>

definition entry :: "string \<Rightarrow> string \<Rightarrow> json" where
  "entry url ident =
     JObj [(''sumario_diario'',
            JObj [(''identificador'', JStr ident), (''url_pdf'', JObj [(''texto'', JStr url)])])]"

definition summary_of :: "json \<Rightarrow> json" where
  "summary_of diario = JObj [(''data'', JObj [(''sumario'', JObj [(''diario'', diario)])])]"

definition three_entries :: json where
  "three_entries = summary_of (JArr [entry ''a.pdf'' ''A'', entry ''b.pdf'' ''B'', entry ''c.pdf'' ''C''])"

definition net3 :: "nat \<Rightarrow> request \<Rightarrow> reply" where
  "net3 n rq =
     (if rq = summary_request ''20240107'' then Response (json_response three_entries)
      else if rq = Request (JStr ''b.pdf'') [] then Response (status_response 500)
      else if rq = Request (JStr ''a.pdf'') [] then Response (pdf_response ''%PDF-a'')
      else Response (pdf_response ''%PDF-c''))"

text \<open>The worlds the run of \<^const>\<open>process_date\<close> on this network passes through.\<close>

definition w3_summary :: world where
  "w3_summary =
     \<lparr>files = Map.empty, dirs = {}, network = net3,
      trace = [Requested (summary_request ''20240107'')]\<rparr>"

definition w3_first :: world where
  "w3_first =
     \<lparr>files = [[''boe'', ''2024'', ''01'', ''07'', ''boe.pdf''] \<mapsto> ''%PDF-a''],
      dirs = {[''boe'', ''2024'', ''01'', ''07''], [''boe'', ''2024'', ''01''], [''boe'', ''2024''],
              [''boe'']},
      network = net3,
      trace = [Requested (summary_request ''20240107''), Requested (Request (JStr ''a.pdf'') []),
               MadeDir [''boe''], MadeDir [''boe'', ''2024''], MadeDir [''boe'', ''2024'', ''01''],
               MadeDir [''boe'', ''2024'', ''01'', ''07''],
               Wrote [''boe'', ''2024'', ''01'', ''07'', ''boe.pdf''] ''%PDF-a'']\<rparr>"

definition w3_second :: world where
  "w3_second =
     w3_first\<lparr>trace := trace w3_first @
       [Requested (Request (JStr ''b.pdf'') []), Slept 30, Requested (Request (JStr ''b.pdf'') []),
        Slept 60, Requested (Request (JStr ''b.pdf'') [])]\<rparr>"

definition w3_final :: world where
  "w3_final =
     \<lparr>files = [[''boe'', ''2024'', ''01'', ''07'', ''boe.pdf''] \<mapsto> ''%PDF-c''],
      dirs = {[''boe'', ''2024'', ''01'', ''07''], [''boe'', ''2024'', ''01''], [''boe'', ''2024''],
              [''boe'']},
      network = net3,
      trace = trace w3_second @
        [Printed (FailedDownload (JStr ''B'') ''20240107'' (HTTPError ''status'')),
         Requested (Request (JStr ''c.pdf'') []),
         Wrote [''boe'', ''2024'', ''01'', ''07'', ''boe.pdf''] ''%PDF-c'']\<rparr>"

text \<open>A network for the first day of the year 999: one entry, and its PDF.\<close>

definition net999 :: "nat \<Rightarrow> request \<Rightarrow> reply" where
  "net999 n rq =
     (if rq = summary_request ''9990101''
      then Response (json_response (summary_of (entry ''a.pdf'' ''A'')))
      else Response (pdf_response ''%PDF-a''))"

section \<open>Properties\<close>

subsection \<open>The path of a day's PDF\<close>

lemma digit_not_slash: "k < 10 \<Longrightarrow> ''0123456789'' ! k \<noteq> CHR ''/''"
proof -
  assume "k < 10"
  then have "''0123456789'' ! k \<in> set ''0123456789''" by (intro nth_mem) simp
  then show ?thesis by auto
qed

lemma decimal_no_slash: "CHR ''/'' \<notin> set (decimal n)"
proof (induction n rule: decimal.induct)
  case (1 n)
  show ?case
  proof (cases "n < 10")
    case True
    then show ?thesis using digit_not_slash [of n] by (simp add: decimal.simps [of n])
  next
    case False
    then show ?thesis
      using 1 digit_not_slash [of "n mod 10"] by (simp add: decimal.simps [of n])
  qed
qed

lemma decimal_nonempty: "decimal n \<noteq> []"
  by (simp add: decimal.simps [of n])

lemma zero_pad_no_slash: "CHR ''/'' \<notin> set (zero_pad k (decimal n))"
  by (auto simp: zero_pad_def decimal_no_slash)

lemma zero_pad_nonempty: "zero_pad k (decimal n) \<noteq> []"
  by (simp add: zero_pad_def decimal_nonempty)

text \<open>From the year 1000 on the year has at least four digits, and padding changes nothing.\<close>

lemma length_decimal: "length (decimal n) = (if n < 10 then 1 else Suc (length (decimal (n div 10))))"
  by (simp add: decimal.simps [of n])

lemma four_digits: "1000 \<le> n \<Longrightarrow> 4 \<le> length (decimal n)"
proof -
  assume n: "1000 \<le> n"
  then have big: "\<not> n < 10" "\<not> n div 10 < 10" "\<not> n div 10 div 10 < 10"
    by arith+
  have "length (decimal n) = Suc (length (decimal (n div 10)))"
    using big by (simp add: length_decimal [of n])
  also have "length (decimal (n div 10)) = Suc (length (decimal (n div 10 div 10)))"
    using big by (simp add: length_decimal [of "n div 10"])
  also have "length (decimal (n div 10 div 10)) = Suc (length (decimal (n div 10 div 10 div 10)))"
    using big by (simp add: length_decimal [of "n div 10 div 10"])
  finally show ?thesis
    using decimal_nonempty [of "n div 10 div 10 div 10"]
    by (cases "decimal (n div 10 div 10 div 10)") simp_all
qed

lemma year_text_padded: "1000 \<le> n \<Longrightarrow> zero_pad 4 (decimal n) = decimal n"
  using four_digits [of n] by (simp add: zero_pad_def)

lemma parts_slash:
  "CHR ''/'' \<notin> set a \<Longrightarrow> parts piece (a @ CHR ''/'' # s) =
     (if piece @ a = [] then parts [] s else (piece @ a) # parts [] s)"
  by (induction a arbitrary: piece) auto

lemma parts_no_slash:
  "CHR ''/'' \<notin> set a \<Longrightarrow> parts piece a = (if piece @ a = [] then [] else [piece @ a])"
  by (induction a arbitrary: piece) auto

lemma strftime_dir:
  "strftime ''%Y/%m/%d'' d =
     decimal (year d) @ CHR ''/'' # zero_pad 2 (decimal (month d)) @
     CHR ''/'' # zero_pad 2 (decimal (day d))"
  by (simp add: strftime.simps)

lemma pdf_path_of_parts:
  "pdf_path_of output_dir d =
     output_dir @ [decimal (year d), zero_pad 2 (decimal (month d)),
                   zero_pad 2 (decimal (day d)), ''boe.pdf'']"
  unfolding pdf_path_of_def path_div_def strftime_dir
  by (simp add: parts_slash parts_no_slash zero_pad_no_slash zero_pad_nonempty decimal_no_slash
      decimal_nonempty)

subsection \<open>The disk\<close>

lemma silent_simps [simp]:
  "silent []"
  "silent (MadeDir p # evs) = silent evs"
  "silent (Printed l # evs) = silent evs"
  "\<not> silent (Wrote p bytes # evs)"
  "\<not> silent (Slept n # evs)"
  "\<not> silent (Requested rq # evs)"
  by (simp_all add: silent_def)

lemma sleeps_append [simp]: "sleeps (xs @ ys) = sleeps xs @ sleeps ys"
  by (induction xs rule: sleeps.induct) auto

lemma writes_append [simp]: "writes (xs @ ys) = writes xs @ writes ys"
  by (induction xs rule: writes.induct) auto

lemma silent_append [simp]: "silent (xs @ ys) = (silent xs \<and> silent ys)"
  by (auto simp: silent_def)

lemma silentD: "silent evs \<Longrightarrow> filter is_request evs = [] \<and> sleeps evs = [] \<and> writes evs = []"
  by (simp add: silent_def)

lemma mkdir_effect:
  assumes "mkdir p w = (res, w')"
  shows "files w' = files w \<and> network w' = network w \<and> dirs w \<subseteq> dirs w' \<and>
         (\<exists>made. trace w' = trace w @ made \<and> silent made)"
proof (cases "\<not> is_dir w p \<and> files w p = None \<and> is_dir w (butlast p)")
  case True
  then have "w' = w\<lparr>dirs := insert p (dirs w), trace := trace w @ [MadeDir p]\<rparr>"
    using assms by (simp add: mkdir_def)
  then show ?thesis by auto
next
  case False
  then have "w' = w"
    using assms by (auto simp: mkdir_def split: if_splits)
  then show ?thesis by simp
qed

lemma mkdir_each_effect:
  "mkdir_each qs w = (res, w') \<Longrightarrow>
   files w' = files w \<and> network w' = network w \<and> dirs w \<subseteq> dirs w' \<and>
   (\<exists>made. trace w' = trace w @ made \<and> silent made)"
proof (induction qs arbitrary: w)
  case Nil
  then show ?case by simp
next
  case (Cons q qs)
  obtain r1 w1 where m: "mkdir q w = (r1, w1)" by force
  from mkdir_effect [OF m] obtain made1 where a:
    "files w1 = files w" "network w1 = network w" "dirs w \<subseteq> dirs w1"
    "trace w1 = trace w @ made1" "silent made1"
    by blast
  show ?case
  proof (cases r1)
    case (Inl e)
    then have "w' = w1" using Cons.prems m by simp
    then show ?thesis using a by auto
  next
    case (Inr u)
    then have "mkdir_each qs w1 = (res, w')" using Cons.prems m by simp
    from Cons.IH [OF this] obtain made2 where b:
      "files w' = files w1" "network w' = network w1" "dirs w1 \<subseteq> dirs w'"
      "trace w' = trace w1 @ made2" "silent made2"
      by blast
    show ?thesis
      using a b by (auto intro!: exI [of _ "made1 @ made2"])
  qed
qed

lemma mkdir_parents_effect:
  assumes "mkdir_parents p w = (res, w')"
  shows "files w' = files w \<and> network w' = network w \<and> dirs w \<subseteq> dirs w' \<and>
         (\<exists>made. trace w' = trace w @ made \<and> silent made)"
proof (cases "file_above w p")
  case True
  then have "w' = w" using assms by (simp add: mkdir_parents_def)
  then show ?thesis by simp
next
  case False
  then have "mkdir_each (path_prefixes p) w = (res, w')"
    using assms by (simp add: mkdir_parents_def)
  then show ?thesis by (rule mkdir_each_effect)
qed

lemma write_bytes_effect:
  assumes "write_bytes p bytes w = (res, w')"
  shows "(\<exists>e. res = Inl e \<and> w' = w) \<or>
         (res = Inr () \<and> w' = w\<lparr>files := (files w)(p \<mapsto> bytes), trace := trace w @ [Wrote p bytes]\<rparr>)"
  using assms by (auto simp: write_bytes_def split: if_splits)

subsection \<open>The traces of the loops\<close>

lemma requests_made_simps [simp]:
  "requests_made (sleep n w) = requests_made w"
  "requests_made (print l w) = requests_made w"
  "requests_made (w\<lparr>trace := trace w @ [Requested rq]\<rparr>) = Suc (requests_made w)"
  by (simp_all add: requests_made_def sleep_def print_def)

lemma network_simps [simp]:
  "network (sleep n w) = network w"
  "network (print l w) = network w"
  by (simp_all add: sleep_def print_def)

lemma files_simps [simp]:
  "files (sleep n w) = files w"
  "files (print l w) = files w"
  by (simp_all add: sleep_def print_def)

text \<open>What one attempt of a download leaves behind.\<close>

lemma try_download_cases:
  assumes "try_download url p w = (res, w1)"
  shows "\<exists>tail. trace w1 = trace w @ Requested (Request url []) # tail \<and>
           network w1 = network w \<and> filter is_request tail = [] \<and> sleeps tail = [] \<and>
           ((\<exists>e. res = Inl e \<and> writes tail = [] \<and> files w1 = files w) \<or>
            (\<exists>bytes. res = Inr () \<and> writes tail = [(p, bytes)] \<and> files w1 = (files w)(p \<mapsto> bytes)))"
proof -
  let ?rq = "Request url []"
  let ?w0 = "w\<lparr>trace := trace w @ [Requested ?rq]\<rparr>"
  have failed: ?thesis if "try_download url p w = (Inl e, ?w0)" for e
    using that assms by (intro exI [of _ "[]"]) auto
  show ?thesis
  proof (cases "network w (requests_made w) ?rq")
    case (Failure e)
    then have "try_download url p w = (Inl e, ?w0)"
      by (simp add: try_download_def session_get_def)
    then show ?thesis by (rule failed)
  next
    case (Response r)
    show ?thesis
    proof (cases "raise_for_status r")
      case (Inl e)
      then have "try_download url p w = (Inl e, ?w0)"
        by (simp add: try_download_def session_get_def Response)
      then show ?thesis by (rule failed)
    next
      case (Inr u)
      obtain r2 w2 where m: "mkdir_parents (butlast p) ?w0 = (r2, w2)" by force
      from mkdir_parents_effect [OF m] obtain made where a:
        "files w2 = files w" "network w2 = network w" "trace w2 = trace w @ Requested ?rq # made"
        "silent made"
        by auto
      show ?thesis
      proof (cases r2)
        case e: (Inl e)
        then have "res = Inl e" "w1 = w2"
          using assms m by (simp_all add: try_download_def session_get_def Response Inr)
        then show ?thesis
          using a silentD [OF a(4)] by (intro exI [of _ made]) simp
      next
        case u: (Inr u')
        then have wr: "write_bytes p (content r) w2 = (res, w1)"
          using assms m by (simp add: try_download_def session_get_def Response Inr)
        from write_bytes_effect [OF wr] show ?thesis
        proof (elim disjE exE conjE)
          fix e
          assume "res = Inl e" "w1 = w2"
          then show ?thesis
            using a silentD [OF a(4)] by (intro exI [of _ made]) simp
        next
          assume "res = Inr ()"
            "w1 = w2\<lparr>files := (files w2)(p \<mapsto> content r), trace := trace w2 @ [Wrote p (content r)]\<rparr>"
          then show ?thesis
            using a silentD [OF a(4)] by (intro exI [of _ "made @ [Wrote p (content r)]"]) simp
        qed
      qed
    qed
  qed
qed

text \<open>
  A run of \<^const>\<open>download_attempts\<close> from attempt \<open>k\<close>: the new part of the trace, its
  requests, its sleeps, and what was written.
\<close>

lemma download_attempts_trace:
  assumes "download_attempts [k..<MAX_RETRIES] url p w = (res, w')" and "k < MAX_RETRIES"
  shows "\<exists>new r. trace w' = trace w @ Requested (Request url []) # new \<and> network w' = network w \<and>
           r = length (filter is_request new) \<and> k + r < MAX_RETRIES \<and>
           sleeps new = map (\<lambda>i. RETRY_DELAY * (i + 1)) [k..<k + r] \<and>
           ((\<exists>e. res = Inl e \<and> writes new = [] \<and> files w' = files w) \<or>
            (\<exists>bytes. res = Inr () \<and> writes new = [(p, bytes)] \<and> files w' = (files w)(p \<mapsto> bytes)))"
  using assms
proof (induction "MAX_RETRIES - k" arbitrary: k w)
  case 0
  then show ?case by simp
next
  case (Suc m)
  let ?rq = "Request url []"
  have upt: "[k..<MAX_RETRIES] = k # [Suc k..<MAX_RETRIES]"
    using Suc.prems(2) by (simp add: upt_rec)
  obtain r1 w1 where t: "try_download url p w = (r1, w1)" by force
  from try_download_cases [OF t] obtain tail where tl:
    "trace w1 = trace w @ Requested ?rq # tail" "network w1 = network w"
    "filter is_request tail = []" "sleeps tail = []"
    "(\<exists>e. r1 = Inl e \<and> writes tail = [] \<and> files w1 = files w) \<or>
     (\<exists>bytes. r1 = Inr () \<and> writes tail = [(p, bytes)] \<and> files w1 = (files w)(p \<mapsto> bytes))"
    by blast
  from tl(5) show ?case
  proof (elim disjE exE conjE)
    fix bytes
    assume ok: "r1 = Inr ()" "writes tail = [(p, bytes)]" "files w1 = (files w)(p \<mapsto> bytes)"
    then have "res = Inr ()" "w' = w1"
      using Suc.prems(1) t by (simp_all add: upt)
    then show ?thesis
      using ok tl(1-4) Suc.prems(2)
      by (intro exI [of _ tail] exI [of _ 0]) simp
  next
    fix e
    assume bad: "r1 = Inl e" "writes tail = []" "files w1 = files w"
    show ?thesis
    proof (cases "is_HTTPError e \<and> k < MAX_RETRIES - 1")
      case False
      then have "res = Inl e" "w' = w1"
        using Suc.prems(1) t bad by (auto simp: upt split: if_splits)
      then show ?thesis
        using bad tl(1-4) Suc.prems(2)
        by (intro exI [of _ tail] exI [of _ 0]) simp
    next
      case True
      let ?d = "RETRY_DELAY * (k + 1)"
      let ?w2 = "sleep ?d w1"
      have rec: "download_attempts [Suc k..<MAX_RETRIES] url p ?w2 = (res, w')"
        using Suc.prems(1) t bad True by (simp add: upt)
      have "m = MAX_RETRIES - Suc k" "Suc k < MAX_RETRIES"
        using Suc.hyps(2) True by linarith+
      from Suc.hyps(1) [OF this(1) rec this(2)]
      obtain new r where ih:
        "trace w' = trace ?w2 @ Requested ?rq # new" "network w' = network ?w2"
        "r = length (filter is_request new)" "Suc k + r < MAX_RETRIES"
        "sleeps new = map (\<lambda>i. RETRY_DELAY * (i + 1)) [Suc k..<Suc k + r]"
        "(\<exists>e. res = Inl e \<and> writes new = [] \<and> files w' = files ?w2) \<or>
         (\<exists>bytes. res = Inr () \<and> writes new = [(p, bytes)] \<and> files w' = (files ?w2)(p \<mapsto> bytes))"
        by blast
      have w2: "trace ?w2 = trace w @ Requested ?rq # tail @ [Slept ?d]" "files ?w2 = files w"
        "network ?w2 = network w"
        using bad tl(1,2) by (simp_all add: sleep_def)
      have "[k..<k + Suc r] = k # [Suc k..<Suc k + r]"
        by (simp add: upt_rec)
      then show ?thesis
        using ih w2 bad(2) tl(3,4)
        by (intro exI [of _ "tail @ Slept ?d # Requested ?rq # new"] exI [of _ "Suc r"]) simp
    qed
  qed
qed

lemma download_pdf_trace:
  assumes "download_pdf url p w = (res, w')"
  shows "\<exists>new. trace w' = trace w @ Requested (Request url []) # new \<and> network w' = network w \<and>
           ((\<exists>e. res = Inl e \<and> writes new = [] \<and> files w' = files w) \<or>
            (\<exists>bytes. res = Inr () \<and> writes new = [(p, bytes)] \<and> files w' = (files w)(p \<mapsto> bytes)))"
proof -
  have "0 < MAX_RETRIES" by (simp add: MAX_RETRIES_def)
  from download_attempts_trace [OF assms [unfolded download_pdf_def] this]
  show ?thesis by blast
qed

lemma try_summary_cases:
  assumes "try_summary ds w = (res, w1)"
  shows "w1 = w\<lparr>trace := trace w @ [Requested (summary_request ds)]\<rparr> \<and>
         (\<forall>x. res = Inr x \<longrightarrow> x = Returned (0, ''no_boe'') \<or> (\<exists>data. x = Data data))"
  using assms
  by (cases "network w (requests_made w) (summary_request ds)")
     (auto simp: try_summary_def session_get_def split: if_splits sum.splits option.splits)

lemma fetch_summary_trace:
  assumes "fetch_summary [k..<MAX_RETRIES] ds w = (res, w')" and "k < MAX_RETRIES"
  shows "\<exists>new r. trace w' = trace w @ Requested (summary_request ds) # new \<and>
           network w' = network w \<and> files w' = files w \<and> writes new = [] \<and>
           r = length (filter is_request new) \<and> k + r < MAX_RETRIES \<and>
           sleeps new = map (\<lambda>i. RETRY_DELAY * (i + 1)) [k..<k + r] \<and>
           (\<forall>outcome. res = Inr (Returned outcome) \<longrightarrow>
              outcome = (0, ''no_boe'') \<or> outcome = (0, ''error''))"
  using assms
proof (induction "MAX_RETRIES - k" arbitrary: k w)
  case 0
  then show ?case by simp
next
  case (Suc m)
  let ?rq = "summary_request ds"
  have upt: "[k..<MAX_RETRIES] = k # [Suc k..<MAX_RETRIES]"
    using Suc.prems(2) by (simp add: upt_rec)
  obtain r1 w1 where t: "try_summary ds w = (r1, w1)" by force
  from try_summary_cases [OF t]
  have w1: "w1 = w\<lparr>trace := trace w @ [Requested ?rq]\<rparr>"
    and r1: "\<And>x. r1 = Inr x \<Longrightarrow> x = Returned (0, ''no_boe'') \<or> (\<exists>data. x = Data data)"
    by blast+
  show ?case
  proof (cases r1)
    case (Inr x)
    then have "res = Inr x" "w' = w1"
      using Suc.prems(1) t by (simp_all add: upt)
    then show ?thesis
      using w1 r1 [OF Inr] Suc.prems(2)
      by (intro exI [of _ "[]"] exI [of _ 0]) auto
  next
    case (Inl e)
    show ?thesis
    proof (cases "is_HTTPError e")
      case False
      then have "res = Inl e" "w' = w1"
        using Suc.prems(1) t Inl by (simp_all add: upt)
      then show ?thesis
        using w1 Suc.prems(2)
        by (intro exI [of _ "[]"] exI [of _ 0]) simp
    next
      case http: True
      show ?thesis
      proof (cases "k < MAX_RETRIES - 1")
        case False
        then have "res = Inr (Returned (0, ''error''))"
          "w' = print (FailedAfter MAX_RETRIES ds e) w1"
          using Suc.prems(1) t Inl http by (simp_all add: upt)
        then show ?thesis
          using w1 Suc.prems(2)
          by (intro exI [of _ "[Printed (FailedAfter MAX_RETRIES ds e)]"] exI [of _ 0])
             (simp add: print_def)
      next
        case True
        let ?d = "RETRY_DELAY * (k + 1)"
        let ?w2 = "sleep ?d w1"
        have rec: "fetch_summary [Suc k..<MAX_RETRIES] ds ?w2 = (res, w')"
          using Suc.prems(1) t Inl http True by (simp add: upt)
        have "m = MAX_RETRIES - Suc k" "Suc k < MAX_RETRIES"
          using Suc.hyps(2) True by linarith+
        from Suc.hyps(1) [OF this(1) rec this(2)]
        obtain new r where ih:
          "trace w' = trace ?w2 @ Requested ?rq # new" "network w' = network ?w2"
          "files w' = files ?w2" "writes new = []"
          "r = length (filter is_request new)" "Suc k + r < MAX_RETRIES"
          "sleeps new = map (\<lambda>i. RETRY_DELAY * (i + 1)) [Suc k..<Suc k + r]"
          "\<forall>outcome. res = Inr (Returned outcome) \<longrightarrow>
              outcome = (0, ''no_boe'') \<or> outcome = (0, ''error'')"
          by blast
        have w2: "trace ?w2 = trace w @ [Requested ?rq, Slept ?d]" "files ?w2 = files w"
          "network ?w2 = network w"
          using w1 by (simp_all add: sleep_def)
        have "[k..<k + Suc r] = k # [Suc k..<Suc k + r]"
          by (simp add: upt_rec)
        then show ?thesis
          using ih w2
          by (intro exI [of _ "Slept ?d # Requested ?rq # new"] exI [of _ "Suc r"]) simp
      qed
    qed
  qed
qed

text \<open>The loop over the PDFs of a day.\<close>

lemma download_all_trace:
  assumes "download_all pdfs date output_dir ds d w = (n, w')"
  shows "\<exists>new. trace w' = trace w @ new \<and> network w' = network w \<and>
           n = d + int (length (writes new)) \<and> length (writes new) \<le> length pdfs \<and>
           (\<forall>pb \<in> set (writes new). fst pb = pdf_path_of output_dir date) \<and>
           files w' = (if writes new = [] then files w
                       else (files w)(pdf_path_of output_dir date \<mapsto> snd (last (writes new)))) \<and>
           (\<forall>ui \<in> set pdfs. Requested (Request (fst ui) []) \<in> set new)"
  using assms
proof (induction pdfs arbitrary: d w)
  case Nil
  then show ?case by simp
next
  case (Cons ui pdfs)
  obtain url ident where ui: "ui = (url, ident)" by (cases ui)
  let ?p = "pdf_path_of output_dir date"
  obtain r1 w1 where dl: "download_pdf url ?p w = (r1, w1)" by force
  from download_pdf_trace [OF dl] obtain new1 where n1:
    "trace w1 = trace w @ Requested (Request url []) # new1" "network w1 = network w"
    "(\<exists>e. r1 = Inl e \<and> writes new1 = [] \<and> files w1 = files w) \<or>
     (\<exists>bytes. r1 = Inr () \<and> writes new1 = [(?p, bytes)] \<and> files w1 = (files w)(?p \<mapsto> bytes))"
    by blast
  from n1(3) show ?case
  proof (elim disjE exE conjE)
    fix e
    assume f: "r1 = Inl e" "writes new1 = []" "files w1 = files w"
    let ?w2 = "print (FailedDownload ident ds e) w1"
    have rec: "download_all pdfs date output_dir ds d ?w2 = (n, w')"
      using Cons.prems dl f ui by simp
    from Cons.IH [OF rec] obtain new where ih:
      "trace w' = trace ?w2 @ new" "network w' = network ?w2"
      "n = d + int (length (writes new))" "length (writes new) \<le> length pdfs"
      "\<forall>pb \<in> set (writes new). fst pb = ?p"
      "files w' = (if writes new = [] then files ?w2
                   else (files ?w2)(?p \<mapsto> snd (last (writes new))))"
      "\<forall>ui \<in> set pdfs. Requested (Request (fst ui) []) \<in> set new"
      by blast
    have w2: "trace ?w2 = trace w @ Requested (Request url []) # new1 @ [Printed (FailedDownload ident ds e)]"
      "files ?w2 = files w" "network ?w2 = network w"
      using n1 f by (simp_all add: print_def)
    show ?thesis
      using ih w2 f ui
      by (intro exI [of _ "Requested (Request url []) # new1 @ [Printed (FailedDownload ident ds e)] @ new"])
         auto
  next
    fix bytes
    assume s: "r1 = Inr ()" "writes new1 = [(?p, bytes)]" "files w1 = (files w)(?p \<mapsto> bytes)"
    have rec: "download_all pdfs date output_dir ds (d + 1) w1 = (n, w')"
      using Cons.prems dl s ui by simp
    from Cons.IH [OF rec] obtain new where ih:
      "trace w' = trace w1 @ new" "network w' = network w1"
      "n = d + 1 + int (length (writes new))" "length (writes new) \<le> length pdfs"
      "\<forall>pb \<in> set (writes new). fst pb = ?p"
      "files w' = (if writes new = [] then files w1
                   else (files w1)(?p \<mapsto> snd (last (writes new))))"
      "\<forall>ui \<in> set pdfs. Requested (Request (fst ui) []) \<in> set new"
      by blast
    show ?thesis
      using ih n1 s ui
      by (intro exI [of _ "Requested (Request url []) # new1 @ new"]) auto
  qed
qed

lemma http_failure_is_HTTPError: "http_failure rp = Some e \<Longrightarrow> is_HTTPError e"
  by (cases rp) (auto simp: raise_for_status_def split: if_splits)

lemma try_download_fails:
  "http_failure (network w (requests_made w) (Request url [])) = Some e \<Longrightarrow>
   try_download url p w = (Inl e, w\<lparr>trace := trace w @ [Requested (Request url [])]\<rparr>)"
  by (auto simp: try_download_def session_get_def split: reply.splits sum.splits if_splits)

lemma try_summary_fails:
  "http_failure (network w (requests_made w) (summary_request ds)) = Some e \<Longrightarrow>
   \<not> is_404 (network w (requests_made w) (summary_request ds)) \<Longrightarrow>
   try_summary ds w = (Inl e, w\<lparr>trace := trace w @ [Requested (summary_request ds)]\<rparr>)"
  by (auto simp: try_summary_def session_get_def split: reply.splits sum.splits if_splits)

subsection \<open>The retry schedule\<close>

lemma delays_from_one:
  "map (\<lambda>i. RETRY_DELAY * (i + 1)) [0..<r] = map (\<lambda>i. RETRY_DELAY * i) [1..<Suc r]"
proof -
  have "map (\<lambda>i. RETRY_DELAY * i) [Suc 0..<Suc r] = map (\<lambda>i. RETRY_DELAY * i) (map Suc [0..<r])"
    by (simp only: map_Suc_upt)
  then show ?thesis by (simp add: comp_def)
qed

lemma download_pdf_schedule:
  "\<exists>new. trace (snd (download_pdf url p w)) = trace w @ new \<and>
     length (filter is_request new) \<le> MAX_RETRIES \<and>
     sleeps new = map (\<lambda>i. RETRY_DELAY * i) [1..<length (filter is_request new)]"
proof -
  obtain res w' where d: "download_attempts [0..<MAX_RETRIES] url p w = (res, w')" by force
  have "0 < MAX_RETRIES" by (simp add: MAX_RETRIES_def)
  from download_attempts_trace [OF d this] obtain new r where
    n: "trace w' = trace w @ Requested (Request url []) # new" "r = length (filter is_request new)"
      "0 + r < MAX_RETRIES" "sleeps new = map (\<lambda>i. RETRY_DELAY * (i + 1)) [0..<0 + r]"
    by blast
  show ?thesis
    using n d delays_from_one [of r]
    by (intro exI [of _ "Requested (Request url []) # new"]) (simp add: download_pdf_def)
qed

lemma fetch_summary_schedule:
  "\<exists>new. trace (snd (fetch_summary [0..<MAX_RETRIES] ds w)) = trace w @ new \<and>
     length (filter is_request new) \<le> MAX_RETRIES \<and>
     sleeps new = map (\<lambda>i. RETRY_DELAY * i) [1..<length (filter is_request new)]"
proof -
  obtain res w' where d: "fetch_summary [0..<MAX_RETRIES] ds w = (res, w')" by force
  have "0 < MAX_RETRIES" by (simp add: MAX_RETRIES_def)
  from fetch_summary_trace [OF d this] obtain new r where
    n: "trace w' = trace w @ Requested (summary_request ds) # new" "r = length (filter is_request new)"
      "0 + r < MAX_RETRIES" "sleeps new = map (\<lambda>i. RETRY_DELAY * (i + 1)) [0..<0 + r]"
    by blast
  show ?thesis
    using n d delays_from_one [of r]
    by (intro exI [of _ "Requested (summary_request ds) # new"]) simp
qed

lemma download_pdf_gives_up:
  assumes "http_failure (network w (requests_made w) (Request url [])) = Some e1"
    and "http_failure (network w (requests_made w + 1) (Request url [])) = Some e2"
    and "http_failure (network w (requests_made w + 2) (Request url [])) = Some e3"
  shows "download_pdf url p w =
    (Inl e3, w\<lparr>trace := trace w @ [Requested (Request url []), Slept 30, Requested (Request url []),
                                   Slept 60, Requested (Request url [])]\<rparr>)"
proof -
  let ?rq = "Request url []"
  let ?w1 = "sleep 30 (w\<lparr>trace := trace w @ [Requested ?rq]\<rparr>)"
  let ?w2 = "sleep 60 (?w1\<lparr>trace := trace ?w1 @ [Requested ?rq]\<rparr>)"
  have a1: "try_download url p w = (Inl e1, w\<lparr>trace := trace w @ [Requested ?rq]\<rparr>)"
    using assms(1) by (rule try_download_fails)
  have a2: "try_download url p ?w1 = (Inl e2, ?w1\<lparr>trace := trace ?w1 @ [Requested ?rq]\<rparr>)"
    using assms(2) by (intro try_download_fails) simp
  have a3: "try_download url p ?w2 = (Inl e3, ?w2\<lparr>trace := trace ?w2 @ [Requested ?rq]\<rparr>)"
    using assms(3) by (intro try_download_fails) (simp add: eval_nat_numeral)
  have "[0..<MAX_RETRIES] = [0, 1, 2]" by (simp add: MAX_RETRIES_def upt_rec)
  then show ?thesis
    using assms [THEN http_failure_is_HTTPError] a1 a2 a3
    by (simp add: download_pdf_def MAX_RETRIES_def RETRY_DELAY_def sleep_def)
qed

lemma fetch_summary_gives_up:
  assumes "http_failure (network w (requests_made w) (summary_request ds)) = Some e1"
    and "http_failure (network w (requests_made w + 1) (summary_request ds)) = Some e2"
    and "http_failure (network w (requests_made w + 2) (summary_request ds)) = Some e3"
    and "\<not> is_404 (network w (requests_made w) (summary_request ds))"
    and "\<not> is_404 (network w (requests_made w + 1) (summary_request ds))"
    and "\<not> is_404 (network w (requests_made w + 2) (summary_request ds))"
  shows "fetch_summary [0..<MAX_RETRIES] ds w =
    (Inr (Returned (0, ''error'')),
     w\<lparr>trace := trace w @ [Requested (summary_request ds), Slept 30, Requested (summary_request ds),
                           Slept 60, Requested (summary_request ds),
                           Printed (FailedAfter 3 ds e3)]\<rparr>)"
proof -
  let ?rq = "summary_request ds"
  let ?w1 = "sleep 30 (w\<lparr>trace := trace w @ [Requested ?rq]\<rparr>)"
  let ?w2 = "sleep 60 (?w1\<lparr>trace := trace ?w1 @ [Requested ?rq]\<rparr>)"
  have a1: "try_summary ds w = (Inl e1, w\<lparr>trace := trace w @ [Requested ?rq]\<rparr>)"
    using assms(1,4) by (rule try_summary_fails)
  have a2: "try_summary ds ?w1 = (Inl e2, ?w1\<lparr>trace := trace ?w1 @ [Requested ?rq]\<rparr>)"
    using assms(2,5) by (intro try_summary_fails) simp_all
  have a3: "try_summary ds ?w2 = (Inl e3, ?w2\<lparr>trace := trace ?w2 @ [Requested ?rq]\<rparr>)"
    using assms(3,6) by (intro try_summary_fails) (simp_all add: eval_nat_numeral)
  have "[0..<MAX_RETRIES] = [0, 1, 2]" by (simp add: MAX_RETRIES_def upt_rec)
  then show ?thesis
    using assms(1-3) [THEN http_failure_is_HTTPError] a1 a2 a3
    by (simp add: MAX_RETRIES_def RETRY_DELAY_def sleep_def print_def)
qed

lemma try_summary_404:
  "is_404 (network w (requests_made w) (summary_request ds)) \<Longrightarrow>
   try_summary ds w =
     (Inr (Returned (0, ''no_boe'')), w\<lparr>trace := trace w @ [Requested (summary_request ds)]\<rparr>)"
  by (cases "network w (requests_made w) (summary_request ds)")
     (simp_all add: try_summary_def session_get_def)

lemma fetch_summary_not_found:
  assumes "j + k < MAX_RETRIES"
    and "\<forall>i<k. http_failure (network w (requests_made w + i) (summary_request ds)) \<noteq> None \<and>
               \<not> is_404 (network w (requests_made w + i) (summary_request ds))"
    and "is_404 (network w (requests_made w + k) (summary_request ds))"
  shows "fetch_summary [j..<MAX_RETRIES] ds w =
    (Inr (Returned (0, ''no_boe'')),
     w\<lparr>trace := trace w @
        concat (map (\<lambda>i. [Requested (summary_request ds), Slept (RETRY_DELAY * (j + i + 1))]) [0..<k]) @
        [Requested (summary_request ds)]\<rparr>)"
  using assms
proof (induction k arbitrary: j w)
  case 0
  have "[j..<MAX_RETRIES] = j # [Suc j..<MAX_RETRIES]"
    using "0.prems"(1) by (simp add: upt_rec)
  then show ?case
    using "0.prems"(3) by (simp add: try_summary_404)
next
  case (Suc k)
  let ?rq = "summary_request ds"
  let ?w1 = "w\<lparr>trace := trace w @ [Requested ?rq]\<rparr>"
  let ?w2 = "sleep (RETRY_DELAY * (j + 1)) ?w1"
  have upt: "[j..<MAX_RETRIES] = j # [Suc j..<MAX_RETRIES]"
    using Suc.prems(1) by (simp add: upt_rec)
  from Suc.prems(2) obtain e where
    e: "http_failure (network w (requests_made w) ?rq) = Some e"
    and n: "\<not> is_404 (network w (requests_made w) ?rq)"
    by force
  have t: "try_summary ds w = (Inl e, ?w1)"
    using e n by (rule try_summary_fails)
  have j: "j < MAX_RETRIES - 1" "Suc j + k < MAX_RETRIES"
    using Suc.prems(1) by simp_all
  have step: "fetch_summary [j..<MAX_RETRIES] ds w = fetch_summary [Suc j..<MAX_RETRIES] ds ?w2"
    using t j(1) http_failure_is_HTTPError [OF e] by (simp add: upt)
  have later: "\<forall>i<k. http_failure (network ?w2 (requests_made ?w2 + i) ?rq) \<noteq> None \<and>
                 \<not> is_404 (network ?w2 (requests_made ?w2 + i) ?rq)"
  proof (intro allI impI)
    fix i
    assume "i < k"
    then have "Suc i < Suc k" by simp
    from Suc.prems(2) [rule_format, OF this] show
      "http_failure (network ?w2 (requests_made ?w2 + i) ?rq) \<noteq> None \<and>
       \<not> is_404 (network ?w2 (requests_made ?w2 + i) ?rq)"
      by simp
  qed
  have last: "is_404 (network ?w2 (requests_made ?w2 + k) ?rq)"
    using Suc.prems(3) by simp
  have "map (\<lambda>i. [Requested ?rq, Slept (RETRY_DELAY * (j + i + 1))]) [0..<Suc k] =
        [Requested ?rq, Slept (RETRY_DELAY * (j + 1))] #
        map (\<lambda>i. [Requested ?rq, Slept (RETRY_DELAY * (Suc j + i + 1))]) [0..<k]"
    by (simp add: upt_rec [of 0 "Suc k"] map_Suc_upt [symmetric] del: upt_Suc)
  then show ?case
    unfolding step Suc.IH [OF j(2) later last]
    by (simp add: sleep_def)
qed

lemma try_summary_ok:
  assumes "network w (requests_made w) (summary_request ds) = Response r"
    and "200 \<le> status_code r" and "status_code r < 300"
    and "json_body r = Some data"
  shows "try_summary ds w =
    (Inr (Data data), w\<lparr>trace := trace w @ [Requested (summary_request ds)]\<rparr>)"
  using assms by (simp add: try_summary_def session_get_def raise_for_status_def)

lemma fetch_summary_found:
  assumes "j + k < MAX_RETRIES"
    and "\<forall>i<k. http_failure (network w (requests_made w + i) (summary_request ds)) \<noteq> None \<and>
               \<not> is_404 (network w (requests_made w + i) (summary_request ds))"
    and "network w (requests_made w + k) (summary_request ds) = Response r"
    and "200 \<le> status_code r" and "status_code r < 300"
    and "json_body r = Some data"
  shows "fetch_summary [j..<MAX_RETRIES] ds w =
    (Inr (Data data),
     w\<lparr>trace := trace w @
        concat (map (\<lambda>i. [Requested (summary_request ds), Slept (RETRY_DELAY * (j + i + 1))]) [0..<k]) @
        [Requested (summary_request ds)]\<rparr>)"
  using assms(1-3)
proof (induction k arbitrary: j w)
  case 0
  have "[j..<MAX_RETRIES] = j # [Suc j..<MAX_RETRIES]"
    using "0.prems"(1) by (simp add: upt_rec)
  moreover have "try_summary ds w =
      (Inr (Data data), w\<lparr>trace := trace w @ [Requested (summary_request ds)]\<rparr>)"
    using "0.prems"(3) assms(4-6) by (intro try_summary_ok [of w ds r]) simp_all
  ultimately show ?case by simp
next
  case (Suc k)
  let ?rq = "summary_request ds"
  let ?w1 = "w\<lparr>trace := trace w @ [Requested ?rq]\<rparr>"
  let ?w2 = "sleep (RETRY_DELAY * (j + 1)) ?w1"
  have upt: "[j..<MAX_RETRIES] = j # [Suc j..<MAX_RETRIES]"
    using Suc.prems(1) by (simp add: upt_rec)
  from Suc.prems(2) obtain e where
    e: "http_failure (network w (requests_made w) ?rq) = Some e"
    and n: "\<not> is_404 (network w (requests_made w) ?rq)"
    by force
  have t: "try_summary ds w = (Inl e, ?w1)"
    using e n by (rule try_summary_fails)
  have j: "j < MAX_RETRIES - 1" "Suc j + k < MAX_RETRIES"
    using Suc.prems(1) by simp_all
  have step: "fetch_summary [j..<MAX_RETRIES] ds w = fetch_summary [Suc j..<MAX_RETRIES] ds ?w2"
    using t j(1) http_failure_is_HTTPError [OF e] by (simp add: upt)
  have later: "\<forall>i<k. http_failure (network ?w2 (requests_made ?w2 + i) ?rq) \<noteq> None \<and>
                 \<not> is_404 (network ?w2 (requests_made ?w2 + i) ?rq)"
  proof (intro allI impI)
    fix i
    assume "i < k"
    then have "Suc i < Suc k" by simp
    from Suc.prems(2) [rule_format, OF this] show
      "http_failure (network ?w2 (requests_made ?w2 + i) ?rq) \<noteq> None \<and>
       \<not> is_404 (network ?w2 (requests_made ?w2 + i) ?rq)"
      by simp
  qed
  have last: "network ?w2 (requests_made ?w2 + k) ?rq = Response r"
    using Suc.prems(3) by simp
  have "map (\<lambda>i. [Requested ?rq, Slept (RETRY_DELAY * (j + i + 1))]) [0..<Suc k] =
        [Requested ?rq, Slept (RETRY_DELAY * (j + 1))] #
        map (\<lambda>i. [Requested ?rq, Slept (RETRY_DELAY * (Suc j + i + 1))]) [0..<k]"
    by (simp add: upt_rec [of 0 "Suc k"] map_Suc_upt [symmetric] del: upt_Suc)
  then show ?case
    unfolding step Suc.IH [OF j(2) later last]
    by (simp add: sleep_def)
qed

subsection \<open>The ways through process_date\<close>

lemma process_date_cases [consumes 1, case_names cached raised returned null malformed downloaded]:
  assumes "process_date date output_dir w = (res, w')"
  obtains
    "path_exists (pdf_path_of output_dir date) w" "res = Inr (0, ''cached'')" "w' = w"
  | e where "\<not> path_exists (pdf_path_of output_dir date) w"
      "fetch_summary [0..<MAX_RETRIES] (strftime ''%Y%m%d'' date) w = (Inl e, w')" "res = Inl e"
  | outcome where "\<not> path_exists (pdf_path_of output_dir date) w"
      "fetch_summary [0..<MAX_RETRIES] (strftime ''%Y%m%d'' date) w = (Inr (Returned outcome), w')"
      "res = Inr outcome"
  | "\<not> path_exists (pdf_path_of output_dir date) w"
      "fetch_summary [0..<MAX_RETRIES] (strftime ''%Y%m%d'' date) w = (Inr (Data JNull), w')"
      "res = Inr (0, ''error'')"
  | data e where "\<not> path_exists (pdf_path_of output_dir date) w"
      "fetch_summary [0..<MAX_RETRIES] (strftime ''%Y%m%d'' date) w = (Inr (Data data), w')"
      "data \<noteq> JNull" "extract_pdfs data = Inl e" "res = Inl e"
  | data pdfs w1 n where "\<not> path_exists (pdf_path_of output_dir date) w"
      "fetch_summary [0..<MAX_RETRIES] (strftime ''%Y%m%d'' date) w = (Inr (Data data), w1)"
      "data \<noteq> JNull" "extract_pdfs data = Inr pdfs"
      "download_all pdfs date output_dir (strftime ''%Y%m%d'' date) 0 w1 = (n, w')"
      "res = Inr (n, ''success'')"
proof (cases "path_exists (pdf_path_of output_dir date) w")
  case True
  have "res = Inr (0, ''cached'')" "w' = w"
    using assms True by (simp_all add: process_date_def)
  with True show ?thesis by (rule that(1))
next
  case miss: False
  let ?ds = "strftime ''%Y%m%d'' date"
  obtain r w1 where f: "fetch_summary [0..<MAX_RETRIES] ?ds w = (r, w1)" by force
  have run: "(case r of
           Inl e \<Rightarrow> (Inl e, w1)
         | Inr (Returned outcome) \<Rightarrow> (Inr outcome, w1)
         | Inr (Data data) \<Rightarrow>
             if data = JNull then (Inr (0, ''error''), w1)
             else
               (case extract_pdfs data of
                  Inl e \<Rightarrow> (Inl e, w1)
                | Inr pdfs \<Rightarrow>
                    (case download_all pdfs date output_dir ?ds 0 w1 of
                       (n, w2) \<Rightarrow> (Inr (n, ''success''), w2)))) = (res, w')"
    using assms miss f by (simp add: process_date_def)
  show ?thesis
  proof (cases r)
    case (Inl e)
    then have "res = Inl e" "w1 = w'" using run by simp_all
    with miss f Inl show ?thesis by (intro that(2) [of e]) simp_all
  next
    case (Inr x)
    show ?thesis
    proof (cases x)
      case (Returned outcome)
      then have "res = Inr outcome" "w1 = w'" using run Inr by simp_all
      with miss f Inr Returned show ?thesis by (intro that(3) [of outcome]) simp_all
    next
      case (Data data)
      show ?thesis
      proof (cases "data = JNull")
        case True
        then have "res = Inr (0, ''error'')" "w1 = w'" using run Inr Data by simp_all
        with miss f Inr Data True show ?thesis by (intro that(4)) simp_all
      next
        case False
        show ?thesis
        proof (cases "extract_pdfs data")
          case (Inl e)
          then have "res = Inl e" "w1 = w'" using run Inr Data False by simp_all
          with miss f Inr Data False Inl show ?thesis by (intro that(5) [of data e]) simp_all
        next
          case pdfs: (Inr pdfs)
          obtain n w2 where d: "download_all pdfs date output_dir ?ds 0 w1 = (n, w2)" by force
          then have "res = Inr (n, ''success'')" "w2 = w'"
            using run Inr Data False pdfs by simp_all
          with miss f Inr Data False pdfs d show ?thesis
            by (intro that(6) [of data w1 pdfs n]) simp_all
        qed
      qed
    qed
  qed
qed

lemma download_all_append:
  "download_all (xs @ ys) date output_dir ds d w =
     (case download_all xs date output_dir ds d w of
        (d1, w1) \<Rightarrow> download_all ys date output_dir ds d1 w1)"
  by (induction xs arbitrary: d w) (auto split: prod.splits sum.splits)

lemma fetch_summary_ok:
  assumes "network w (requests_made w) (summary_request ds) = Response r"
    and "200 \<le> status_code r" and "status_code r < 300"
    and "json_body r = Some data"
  shows "fetch_summary [0..<MAX_RETRIES] ds w =
    (Inr (Data data), w\<lparr>trace := trace w @ [Requested (summary_request ds)]\<rparr>)"
  using assms
  by (simp add: MAX_RETRIES_def upt_rec try_summary_def session_get_def raise_for_status_def)

subsection \<open>Reading the summary\<close>

lemma py_get_dict: "is_dict v \<Longrightarrow> py_get v k dflt = Inr (field v k dflt)"
  by (cases v) (simp_all add: field_def)

lemma py_get_other: "\<not> is_dict v \<Longrightarrow> py_get v k dflt = Inl AttributeError"
  by (cases v) simp_all

lemma collect_pdfs_shaped:
  "list_all entry_shaped ds \<Longrightarrow>
   collect_pdfs ds pdfs =
     Inr (pdfs @ map (\<lambda>d. (entry_url d, entry_identifier d)) (filter (\<lambda>d. truthy (entry_url d)) ds))"
  by (induction ds arbitrary: pdfs)
     (simp_all add: entry_shaped_def Let_def py_get_dict entry_url_def entry_identifier_def)

lemma extract_pdfs_shaped:
  "summary_shaped data \<Longrightarrow>
   extract_pdfs data =
     Inr (map (\<lambda>d. (entry_url d, entry_identifier d)) (filter (\<lambda>d. truthy (entry_url d)) (diarios_of data)))"
  by (simp add: summary_shaped_def extract_pdfs_def Let_def py_get_dict collect_pdfs_shaped
      diarios_of_def [symmetric])

lemma collect_pdfs_raises:
  "\<not> list_all entry_shaped ds \<Longrightarrow> collect_pdfs ds pdfs = Inl AttributeError"
proof (induction ds arbitrary: pdfs)
  case Nil
  then show ?case by simp
next
  case (Cons d ds)
  show ?case
  proof (cases "entry_shaped d")
    case True
    then show ?thesis
      using Cons by (simp add: entry_shaped_def Let_def py_get_dict)
  next
    case False
    then show ?thesis
      by (cases "is_dict d"; cases "is_dict (field d ''sumario_diario'' (JObj []))")
         (simp_all add: entry_shaped_def Let_def py_get_dict py_get_other)
  qed
qed

lemma extract_pdfs_raises:
  "\<not> summary_shaped data \<Longrightarrow> extract_pdfs data = Inl AttributeError"
  by (cases "is_dict data"; cases "is_dict (field data ''data'' (JObj []))";
      cases "is_dict (field (field data ''data'' (JObj [])) ''sumario'' (JObj []))")
     (simp_all add: summary_shaped_def extract_pdfs_def Let_def py_get_dict py_get_other
        collect_pdfs_raises diarios_of_def [symmetric])

subsection \<open>The statistics\<close>

lemma aggregate_foldl: "fst (aggregate i results n st w) = foldl tally st results"
  by (induction results arbitrary: i st w) simp_all

lemma foldl_tally:
  "foldl tally st results =
     \<lparr>downloaded = downloaded st + sum_list (map fst results),
      no_boe = no_boe st + count_status ''no_boe'' results,
      errors = errors st + count_status ''error'' results,
      cached = cached st + count_status ''cached'' results\<rparr>"
proof (induction results arbitrary: st)
  case Nil
  then show ?case by (simp add: count_status_def)
next
  case (Cons r results)
  obtain cnt status where r: "r = (cnt, status)" by (cases r)
  show ?case
    unfolding foldl_Cons Cons.IH
    by (simp add: r tally_def Let_def count_status_def)
qed

lemma count_status_mset:
  "count_status status results = int (size (filter_mset (\<lambda>r. snd r = status) (mset results)))"
  by (simp add: count_status_def flip: mset_filter)

lemma sum_counts_mset: "sum_list (map fst results) = sum_mset (image_mset fst (mset results))"
  by (simp flip: sum_mset_sum_list)

lemma aggregate_sums:
  "fst (aggregate 0 results n \<lparr>downloaded = 0, no_boe = 0, errors = 0, cached = 0\<rparr> w) =
     \<lparr>downloaded = sum_list (map fst results),
      no_boe = count_status ''no_boe'' results,
      errors = count_status ''error'' results,
      cached = count_status ''cached'' results\<rparr>"
  by (simp add: aggregate_foldl foldl_tally)

subsection \<open>The semaphore\<close>

lemma in_flight_update:
  "i < length tasks \<Longrightarrow>
   length (filter (\<lambda>t. t = Holding) (tasks[i := x])) + (if tasks ! i = Holding then 1 else 0) =
   length (filter (\<lambda>t. t = Holding) tasks) + (if x = Holding then 1 else 0)"
proof (induction tasks arbitrary: i)
  case Nil
  then show ?case by simp
next
  case (Cons t tasks)
  show ?case
  proof (cases i)
    case 0
    then show ?thesis by simp
  next
    case (Suc j)
    then show ?thesis
      using Cons.IH [of j] Cons.prems by (simp split: if_splits)
  qed
qed

lemma sem_step_invariant:
  assumes "sem_step r s = Some s'"
  shows "in_flight s' + fst s' = in_flight s + fst s \<and> length (snd s') = length (snd s)"
proof (cases s)
  case (Pair sem tasks)
  show ?thesis
  proof (cases r)
    case (Acquire i)
    then show ?thesis
      using assms Pair in_flight_update [of i tasks Holding]
      by (auto simp: in_flight_def split: if_splits)
  next
    case (Advance i)
    then show ?thesis
      using assms Pair by (auto split: if_splits)
  next
    case (Release i)
    then show ?thesis
      using assms Pair in_flight_update [of i tasks Finished]
      by (auto simp: in_flight_def split: if_splits)
  qed
qed

lemma sem_run_invariant:
  "sem_run schedule s = Some s' \<Longrightarrow> in_flight s' + fst s' = in_flight s + fst s"
proof (induction schedule arbitrary: s)
  case Nil
  then show ?case by simp
next
  case (Cons r schedule)
  then obtain s1 where "sem_step r s = Some s1" "sem_run schedule s1 = Some s'"
    by (auto split: option.splits)
  then show ?case
    using Cons.IH [of s1] sem_step_invariant [of r s s1] by simp
qed

subsection \<open>Making the output directory\<close>

lemma mkdir_succeeds:
  "fst (mkdir p w) = Inr () \<longleftrightarrow> is_dir w p \<or> (files w p = None \<and> is_dir w (butlast p))"
  by (simp add: mkdir_def)

lemma mkdir_existing: "is_dir w p \<Longrightarrow> mkdir p w = (Inr (), w)"
  by (simp add: mkdir_def)

subsection \<open>The example days\<close>

declare strftime.simps [simp del]

lemma day1_path: "pdf_path_of [''boe''] day1 = [''boe'', ''2024'', ''01'', ''07'', ''boe.pdf'']"
  by (simp add: pdf_path_of_parts day1_def zero_pad_def decimal.simps)

lemma day1_key: "strftime ''%Y%m%d'' day1 = ''20240107''"
  by (simp add: day1_def zero_pad_def decimal.simps strftime.simps)

lemma day999_path: "pdf_path_of [''boe''] day999 = [''boe'', ''999'', ''01'', ''01'', ''boe.pdf'']"
  by (simp add: pdf_path_of_parts day999_def zero_pad_def decimal.simps)

lemma day999_padded:
  "[''boe''] @ [zero_pad 4 (decimal (year day999)), zero_pad 2 (decimal (month day999)),
                zero_pad 2 (decimal (day day999)), ''boe.pdf''] =
   [''boe'', ''0999'', ''01'', ''01'', ''boe.pdf'']"
  by (simp add: day999_def zero_pad_def decimal.simps)

lemma day999_key: "strftime ''%Y%m%d'' day999 = ''9990101''"
  by (simp add: day999_def zero_pad_def decimal.simps strftime.simps)

lemma three_entries_pdfs:
  "extract_pdfs three_entries =
     Inr [(JStr ''a.pdf'', JStr ''A''), (JStr ''b.pdf'', JStr ''B''), (JStr ''c.pdf'', JStr ''C'')]"
  by (simp add: extract_pdfs_def three_entries_def summary_of_def entry_def)

lemma net3_simps:
  "net3 n (summary_request ''20240107'') = Response (json_response three_entries)"
  "net3 n (Request (JStr ''a.pdf'') []) = Response (pdf_response ''%PDF-a'')"
  "net3 n (Request (JStr ''b.pdf'') []) = Response (status_response 500)"
  "net3 n (Request (JStr ''c.pdf'') []) = Response (pdf_response ''%PDF-c'')"
  by (simp_all add: net3_def summary_request_def)

lemma net3_fetch:
  "fetch_summary [0..<MAX_RETRIES] ''20240107'' (world_of net3) = (Inr (Data three_entries), w3_summary)"
  by (simp add: MAX_RETRIES_def upt_rec try_summary_def session_get_def world_of_def net3_simps
      json_response_def raise_for_status_def w3_summary_def)

lemma net3_first:
  "download_pdf (JStr ''a.pdf'') [''boe'', ''2024'', ''01'', ''07'', ''boe.pdf''] w3_summary =
     (Inr (), w3_first)"
  by (simp add: download_pdf_def MAX_RETRIES_def upt_rec try_download_def session_get_def net3_simps
      pdf_response_def raise_for_status_def w3_summary_def w3_first_def write_bytes_def
      mkdir_parents_def mkdir_def file_above_def is_dir_def)

lemma net3_second:
  "download_pdf (JStr ''b.pdf'') [''boe'', ''2024'', ''01'', ''07'', ''boe.pdf''] w3_first =
     (Inl (HTTPError ''status''), w3_second)"
  by (simp add: download_pdf_def MAX_RETRIES_def RETRY_DELAY_def upt_rec try_download_def session_get_def
      net3_simps status_response_def raise_for_status_def w3_first_def w3_second_def sleep_def
      requests_made_def)

lemma net3_third:
  "download_pdf (JStr ''c.pdf'') [''boe'', ''2024'', ''01'', ''07'', ''boe.pdf'']
     (print (FailedDownload (JStr ''B'') ''20240107'' (HTTPError ''status'')) w3_second) =
   (Inr (), w3_final)"
  by (simp add: download_pdf_def MAX_RETRIES_def upt_rec try_download_def session_get_def
      net3_simps pdf_response_def raise_for_status_def w3_first_def w3_second_def w3_final_def
      print_def write_bytes_def mkdir_parents_def mkdir_def file_above_def is_dir_def)

lemma net3_miss: "\<not> path_exists (pdf_path_of [''boe''] day1) (world_of net3)"
  by (simp add: day1_path path_exists_def is_dir_def world_of_def)

lemma net3_run: "process_date day1 [''boe''] (world_of net3) = (Inr (2, ''success''), w3_final)"
proof -
  have "download_all [(JStr ''a.pdf'', JStr ''A''), (JStr ''b.pdf'', JStr ''B''), (JStr ''c.pdf'', JStr ''C'')]
          day1 [''boe''] ''20240107'' 0 w3_summary = (2, w3_final)"
    using net3_first net3_second net3_third by (simp add: day1_path)
  moreover have "three_entries \<noteq> JNull"
    by (simp add: three_entries_def summary_of_def)
  ultimately show ?thesis
    using net3_miss
    by (simp add: process_date_def day1_key net3_fetch three_entries_pdfs)
qed

lemma net999_run:
  "process_date day999 [''boe''] (world_of net999) =
     (Inr (1, ''success''),
      \<lparr>files = [[''boe'', ''999'', ''01'', ''01'', ''boe.pdf''] \<mapsto> ''%PDF-a''],
       dirs = {[''boe'', ''999'', ''01'', ''01''], [''boe'', ''999'', ''01''], [''boe'', ''999''],
               [''boe'']},
       network = net999,
       trace = [Requested (summary_request ''9990101''), Requested (Request (JStr ''a.pdf'') []),
                MadeDir [''boe''], MadeDir [''boe'', ''999''], MadeDir [''boe'', ''999'', ''01''],
                MadeDir [''boe'', ''999'', ''01'', ''01''],
                Wrote [''boe'', ''999'', ''01'', ''01'', ''boe.pdf''] ''%PDF-a'']\<rparr>)"
proof -
  let ?w1 = "\<lparr>files = Map.empty, dirs = {}, network = net999,
              trace = [Requested (summary_request ''9990101'')]\<rparr>"
  have n: "net999 n (summary_request ''9990101'') =
             Response (json_response (summary_of (entry ''a.pdf'' ''A'')))"
    "net999 n (Request (JStr ''a.pdf'') []) = Response (pdf_response ''%PDF-a'')" for n
    by (simp_all add: net999_def summary_request_def)
  have f: "fetch_summary [0..<MAX_RETRIES] ''9990101'' (world_of net999) =
      (Inr (Data (summary_of (entry ''a.pdf'' ''A''))), ?w1)"
    by (simp add: MAX_RETRIES_def upt_rec try_summary_def session_get_def world_of_def n
        json_response_def raise_for_status_def)
  have x: "extract_pdfs (summary_of (entry ''a.pdf'' ''A'')) = Inr [(JStr ''a.pdf'', JStr ''A'')]"
    by (simp add: extract_pdfs_def summary_of_def entry_def)
  have d: "download_pdf (JStr ''a.pdf'') [''boe'', ''999'', ''01'', ''01'', ''boe.pdf''] ?w1 =
     (Inr (),
      \<lparr>files = [[''boe'', ''999'', ''01'', ''01'', ''boe.pdf''] \<mapsto> ''%PDF-a''],
       dirs = {[''boe'', ''999'', ''01'', ''01''], [''boe'', ''999'', ''01''], [''boe'', ''999''],
               [''boe'']},
       network = net999,
       trace = [Requested (summary_request ''9990101''), Requested (Request (JStr ''a.pdf'') []),
                MadeDir [''boe''], MadeDir [''boe'', ''999''], MadeDir [''boe'', ''999'', ''01''],
                MadeDir [''boe'', ''999'', ''01'', ''01''],
                Wrote [''boe'', ''999'', ''01'', ''01'', ''boe.pdf''] ''%PDF-a'']\<rparr>)"
    by (simp add: download_pdf_def MAX_RETRIES_def upt_rec try_download_def session_get_def n
        pdf_response_def raise_for_status_def write_bytes_def
        mkdir_parents_def mkdir_def file_above_def is_dir_def)
  have m: "\<not> path_exists (pdf_path_of [''boe''] day999) (world_of net999)"
    by (simp add: day999_path path_exists_def is_dir_def world_of_def)
  have "summary_of (entry ''a.pdf'' ''A'') \<noteq> JNull"
    by (simp add: summary_of_def)
  then show ?thesis
    using m by (simp add: process_date_def day999_key day999_path f x d)
qed

section \<open>The claims\<close>

text \<open>
  Claim C1, amended. When the path that \<^const>\<open>process_date\<close> computes for a date
  exists, it returns \<open>(0, cached)\<close> and leaves the world as it found it: nothing is added
  to the trace, so no summary is requested and no PDF is downloaded. The path is the output
  directory, the year as \<^verbatim>\<open>%Y\<close> prints it, the month and the day in two digits, and
  \<^verbatim>\<open>boe.pdf\<close>. From the year 1000 on this is \<open>output_root/YYYY/MM/DD/boe.pdf\<close> with
  a year of four digits.
\<close>

theorem cached_day_makes_no_request:
  "(path_exists (output_dir @ [decimal (year date), zero_pad 2 (decimal (month date)),
                              zero_pad 2 (decimal (day date)), ''boe.pdf'']) w \<longrightarrow>
      process_date date output_dir w = (Inr (0, ''cached''), w)) \<and>
   (1000 \<le> year date \<and>
    path_exists (output_dir @ [zero_pad 4 (decimal (year date)), zero_pad 2 (decimal (month date)),
                              zero_pad 2 (decimal (day date)), ''boe.pdf'']) w \<longrightarrow>
      process_date date output_dir w = (Inr (0, ''cached''), w))"
proof (intro conjI impI)
  assume "path_exists (output_dir @ [decimal (year date), zero_pad 2 (decimal (month date)),
                              zero_pad 2 (decimal (day date)), ''boe.pdf'']) w"
  then show "process_date date output_dir w = (Inr (0, ''cached''), w)"
    by (simp add: process_date_def pdf_path_of_parts)
next
  assume a: "1000 \<le> year date \<and>
    path_exists (output_dir @ [zero_pad 4 (decimal (year date)), zero_pad 2 (decimal (month date)),
                              zero_pad 2 (decimal (day date)), ''boe.pdf'']) w"
  then have "zero_pad 4 (decimal (year date)) = decimal (year date)"
    by (simp add: year_text_padded)
  with a show "process_date date output_dir w = (Inr (0, ''cached''), w)"
    by (simp add: process_date_def pdf_path_of_parts)
qed

theorem cached_day_witness:
  "process_date day1 [''boe''] cached_world = (Inr (0, ''cached''), cached_world) \<and>
   trace cached_world = []"
proof -
  have h1: "(1000::nat) \<le> year day1"
    by (simp add: day1_def)
  have h2: "path_exists ([''boe''] @ [zero_pad 4 (decimal (year day1)),
          zero_pad 2 (decimal (month day1)), zero_pad 2 (decimal (day day1)), ''boe.pdf'']) cached_world"
    by (simp add: cached_world_def day1_def zero_pad_def decimal.simps path_exists_def)
  from cached_day_makes_no_request [of "[''boe'']" day1 cached_world] h1 h2 show ?thesis
    by (simp add: cached_world_def)
qed

text \<open>
  As stated, C1 has the year in four digits for every date. For the first day of the year
  999 \<^verbatim>\<open>%Y\<close> prints \<^verbatim>\<open>999\<close>: with a PDF at \<^verbatim>\<open>boe/0999/01/01/boe.pdf\<close>,
  \<^const>\<open>process_date\<close> looks at \<^verbatim>\<open>boe/999/01/01/boe.pdf\<close>, requests the summary and
  returns what the network answers.
\<close>

theorem padded_year_is_not_cached:
  "files padded_world ([''boe''] @ [zero_pad 4 (decimal (year day999)), zero_pad 2 (decimal (month day999)),
                                    zero_pad 2 (decimal (day day999)), ''boe.pdf'']) = Some ''%PDF'' \<and>
   process_date day999 [''boe''] padded_world =
     (Inr (0, ''no_boe''), padded_world\<lparr>trace := [Requested (summary_request ''9990101'')]\<rparr>)"
proof -
  have "\<not> path_exists (pdf_path_of [''boe''] day999) padded_world"
    by (simp add: day999_path path_exists_def is_dir_def padded_world_def)
  moreover have "fetch_summary [0..<MAX_RETRIES] ''9990101'' padded_world =
      (Inr (Returned (0, ''no_boe'')), padded_world\<lparr>trace := [Requested (summary_request ''9990101'')]\<rparr>)"
    by (simp add: MAX_RETRIES_def upt_rec try_summary_def session_get_def padded_world_def
        not_found_def status_response_def)
  moreover have "files padded_world ([''boe''] @ [zero_pad 4 (decimal (year day999)),
      zero_pad 2 (decimal (month day999)), zero_pad 2 (decimal (day day999)), ''boe.pdf'']) = Some ''%PDF''"
    unfolding day999_padded by (simp add: padded_world_def)
  ultimately show ?thesis
    by (simp add: process_date_def day999_key)
qed

text \<open>
  Claim C2. The day's PDF is not on disk, and the summary endpoint answers a request of
  \<^const>\<open>process_date\<close> with status 404: the first request, or the request after \<open>k\<close>
  requests that failed and were retried. Then \<^const>\<open>process_date\<close> returns
  \<open>(0, no_boe)\<close> and the request answered 404 is the last thing it does: no sleep and no
  further summary request follow, and no PDF is requested. With \<open>k = 0\<close> the trace grows
  by that one request.
\<close>

theorem not_found_is_final:
  assumes "\<not> path_exists (pdf_path_of output_dir date) w"
    and "k < MAX_RETRIES"
    and "\<forall>i<k. http_failure (network w (requests_made w + i) (summary_request (strftime ''%Y%m%d'' date))) \<noteq> None \<and>
               \<not> is_404 (network w (requests_made w + i) (summary_request (strftime ''%Y%m%d'' date)))"
    and "is_404 (network w (requests_made w + k) (summary_request (strftime ''%Y%m%d'' date)))"
  shows "process_date date output_dir w =
    (Inr (0, ''no_boe''),
     w\<lparr>trace := trace w @
        concat (map (\<lambda>i. [Requested (summary_request (strftime ''%Y%m%d'' date)),
                            Slept (RETRY_DELAY * (i + 1))]) [0..<k]) @
        [Requested (summary_request (strftime ''%Y%m%d'' date))]\<rparr>)"
  using assms(1) fetch_summary_not_found [of 0 k w "strftime ''%Y%m%d'' date"] assms(2-4)
  by (simp add: process_date_def Let_def)

theorem not_found_witness:
  "process_date day1 [''boe''] (world_of error_then_404) =
    (Inr (0, ''no_boe''),
     \<lparr>files = Map.empty, dirs = {}, network = error_then_404,
      trace = [Requested (summary_request ''20240107''), Slept 30,
               Requested (summary_request ''20240107'')]\<rparr>)"
proof -
  let ?w = "world_of error_then_404"
  let ?rq = "summary_request (strftime ''%Y%m%d'' day1)"
  have h1: "\<not> path_exists (pdf_path_of [''boe''] day1) ?w"
    by (simp add: world_of_def day1_path path_exists_def is_dir_def)
  have h2: "(1::nat) < MAX_RETRIES"
    by (simp add: MAX_RETRIES_def)
  have h3: "\<forall>i<1. http_failure (network ?w (requests_made ?w + i) ?rq) \<noteq> None \<and>
              \<not> is_404 (network ?w (requests_made ?w + i) ?rq)"
    by (simp add: world_of_def requests_made_def error_then_404_def status_response_def
        raise_for_status_def)
  have h4: "is_404 (network ?w (requests_made ?w + 1) ?rq)"
    by (simp add: world_of_def requests_made_def error_then_404_def status_response_def)
  from not_found_is_final [OF h1 h2 h3 h4] show ?thesis
    by (simp add: world_of_def day1_key RETRY_DELAY_def)
qed

text \<open>
  Claim C3. The summary of a date yields the entries \<open>before @ (url, ident) # after\<close>,
  and the download of \<open>url\<close> fails (in the world the downloads before it have left, with
  any exception, as when its three requests have failed). Then \<^const>\<open>process_date\<close>
  does not raise: it returns the status \<open>success\<close> with a count below the number of
  entries, prints the failure, and goes on to request every entry after the failed one; in
  the end every other entry has been requested.
\<close>

theorem failed_download_is_skipped:
  assumes "\<not> path_exists (pdf_path_of output_dir date) w"
    and "fetch_summary [0..<MAX_RETRIES] (strftime ''%Y%m%d'' date) w = (Inr (Data data), w1)"
    and "data \<noteq> JNull"
    and "extract_pdfs data = Inr (before @ (url, ident) # after)"
    and "download_all before date output_dir (strftime ''%Y%m%d'' date) 0 w1 = (n1, w2)"
    and "download_pdf url (pdf_path_of output_dir date) w2 = (Inl e, w3)"
  shows "\<exists>n w' rest. process_date date output_dir w = (Inr (n, ''success''), w') \<and>
           0 \<le> n \<and> n < int (length (before @ (url, ident) # after)) \<and>
           trace w' = trace w3 @ Printed (FailedDownload ident (strftime ''%Y%m%d'' date) e) # rest \<and>
           (\<forall>ui \<in> set after. Requested (Request (fst ui) []) \<in> set rest) \<and>
           (\<forall>ui \<in> set (before @ after). Requested (Request (fst ui) []) \<in> set (trace w'))"
proof -
  let ?ds = "strftime ''%Y%m%d'' date"
  let ?w4 = "print (FailedDownload ident ?ds e) w3"
  obtain n w' where after: "download_all after date output_dir ?ds n1 ?w4 = (n, w')"
    by force
  have all: "download_all (before @ (url, ident) # after) date output_dir ?ds 0 w1 = (n, w')"
    using assms(5,6) after by (simp add: download_all_append)
  have run: "process_date date output_dir w = (Inr (n, ''success''), w')"
    using assms(1-4) all by (simp add: process_date_def Let_def)
  from download_all_trace [OF assms(5)] obtain first where f:
    "trace w2 = trace w1 @ first" "n1 = 0 + int (length (writes first))"
    "length (writes first) \<le> length before"
    "\<forall>ui \<in> set before. Requested (Request (fst ui) []) \<in> set first"
    by blast
  from download_pdf_trace [OF assms(6)] obtain failed where
    d: "trace w3 = trace w2 @ Requested (Request url []) # failed"
    by blast
  from download_all_trace [OF after] obtain rest where r:
    "trace w' = trace ?w4 @ rest" "n = n1 + int (length (writes rest))"
    "length (writes rest) \<le> length after"
    "\<forall>ui \<in> set after. Requested (Request (fst ui) []) \<in> set rest"
    by blast
  have t: "trace w' = trace w3 @ Printed (FailedDownload ident ?ds e) # rest"
    using r(1) by (simp add: print_def)
  have "0 \<le> n" "n < int (length (before @ (url, ident) # after))"
    using f(2,3) r(2,3) by simp_all
  moreover have "\<forall>ui \<in> set (before @ after). Requested (Request (fst ui) []) \<in> set (trace w')"
    using f(1,4) d r(4) t by auto
  ultimately show ?thesis
    using run r(4) t by blast
qed

theorem failed_download_witness:
  "\<exists>n w' rest. process_date day1 [''boe''] (world_of net3) = (Inr (n, ''success''), w') \<and>
     0 \<le> n \<and> n < 3 \<and>
     trace w' = trace w3_second @ Printed (FailedDownload (JStr ''B'') ''20240107'' (HTTPError ''status'')) # rest \<and>
     Requested (Request (JStr ''c.pdf'') []) \<in> set rest \<and>
     Requested (Request (JStr ''a.pdf'') []) \<in> set (trace w')"
proof -
  have h1: "\<not> path_exists (pdf_path_of [''boe''] day1) (world_of net3)"
    by (simp add: world_of_def day1_path path_exists_def is_dir_def)
  have h2: "fetch_summary [0..<MAX_RETRIES] (strftime ''%Y%m%d'' day1) (world_of net3) =
      (Inr (Data three_entries), w3_summary)"
    by (simp only: day1_key net3_fetch)
  have h3: "three_entries \<noteq> JNull"
    by (simp add: three_entries_def summary_of_def)
  have h4: "extract_pdfs three_entries =
      Inr ([(JStr ''a.pdf'', JStr ''A'')] @ (JStr ''b.pdf'', JStr ''B'') # [(JStr ''c.pdf'', JStr ''C'')])"
    by (simp add: three_entries_pdfs)
  have h5: "download_all [(JStr ''a.pdf'', JStr ''A'')] day1 [''boe''] (strftime ''%Y%m%d'' day1) 0
      w3_summary = (1, w3_first)"
    by (simp add: day1_key day1_path net3_first)
  have h6: "download_pdf (JStr ''b.pdf'') (pdf_path_of [''boe''] day1) w3_first =
      (Inl (HTTPError ''status''), w3_second)"
    by (simp only: day1_path net3_second)
  from failed_download_is_skipped [OF h1 h2 h3 h4 h5 h6] show ?thesis
    by (auto simp: day1_key)
qed

text \<open>
  Claim C4, amended. The summary fetch and \<^const>\<open>download_pdf\<close> make at most
  \<^const>\<open>MAX_RETRIES\<close> = 3 requests, and before the \<open>i\<close>-th request (\<open>i\<close> = 2, 3)
  they sleep \<^const>\<open>RETRY_DELAY\<close> times \<open>i - 1\<close>: 30 and then 60 seconds. When the third
  request fails as well, nothing more is slept: \<^const>\<open>download_pdf\<close> raises that last
  error to its caller, and \<^const>\<open>process_date\<close> prints it and returns \<open>(0, error)\<close>.
  A failed request is one that ends in an \<^verbatim>\<open>HTTPError\<close>; for the summary, a 404
  is not one.
\<close>

theorem three_attempts_two_delays:
  "(\<exists>new. trace (snd (download_pdf url p w)) = trace w @ new \<and>
      length (filter is_request new) \<le> MAX_RETRIES \<and>
      sleeps new = map (\<lambda>i. RETRY_DELAY * i) [1..<length (filter is_request new)]) \<and>
   (\<exists>new. trace (snd (fetch_summary [0..<MAX_RETRIES] ds w)) = trace w @ new \<and>
      length (filter is_request new) \<le> MAX_RETRIES \<and>
      sleeps new = map (\<lambda>i. RETRY_DELAY * i) [1..<length (filter is_request new)]) \<and>
   ((\<forall>i<MAX_RETRIES. http_failure (network w (requests_made w + i) (Request url [])) \<noteq> None) \<longrightarrow>
      (\<exists>e. http_failure (network w (requests_made w + 2) (Request url [])) = Some e \<and>
        download_pdf url p w =
          (Inl e, w\<lparr>trace := trace w @ [Requested (Request url []), Slept 30,
                        Requested (Request url []), Slept 60, Requested (Request url [])]\<rparr>))) \<and>
   (\<not> path_exists (pdf_path_of output_dir date) w \<and>
    (\<forall>i<MAX_RETRIES.
        http_failure (network w (requests_made w + i) (summary_request (strftime ''%Y%m%d'' date))) \<noteq> None \<and>
        \<not> is_404 (network w (requests_made w + i) (summary_request (strftime ''%Y%m%d'' date)))) \<longrightarrow>
      (\<exists>e. http_failure (network w (requests_made w + 2) (summary_request (strftime ''%Y%m%d'' date))) = Some e \<and>
        process_date date output_dir w =
          (Inr (0, ''error''),
           w\<lparr>trace := trace w @
              [Requested (summary_request (strftime ''%Y%m%d'' date)), Slept 30,
               Requested (summary_request (strftime ''%Y%m%d'' date)), Slept 60,
               Requested (summary_request (strftime ''%Y%m%d'' date)),
               Printed (FailedAfter 3 (strftime ''%Y%m%d'' date) e)]\<rparr>)))"
proof (intro conjI impI)
  show "\<exists>new. trace (snd (download_pdf url p w)) = trace w @ new \<and>
      length (filter is_request new) \<le> MAX_RETRIES \<and>
      sleeps new = map (\<lambda>i. RETRY_DELAY * i) [1..<length (filter is_request new)]"
    by (rule download_pdf_schedule)
  show "\<exists>new. trace (snd (fetch_summary [0..<MAX_RETRIES] ds w)) = trace w @ new \<and>
      length (filter is_request new) \<le> MAX_RETRIES \<and>
      sleeps new = map (\<lambda>i. RETRY_DELAY * i) [1..<length (filter is_request new)]"
    by (rule fetch_summary_schedule)
next
  let ?f = "\<lambda>i. http_failure (network w (requests_made w + i) (Request url []))"
  assume a: "\<forall>i<MAX_RETRIES. ?f i \<noteq> None"
  have lt: "0 < MAX_RETRIES" "1 < MAX_RETRIES" "2 < MAX_RETRIES"
    by (simp_all add: MAX_RETRIES_def)
  have "?f 0 \<noteq> None" "?f 1 \<noteq> None" "?f 2 \<noteq> None"
    using a lt by blast+
  then obtain e1 e2 e3 where "?f 0 = Some e1" "?f 1 = Some e2" "?f 2 = Some e3"
    by auto
  then show "\<exists>e. ?f 2 = Some e \<and> download_pdf url p w =
          (Inl e, w\<lparr>trace := trace w @ [Requested (Request url []), Slept 30,
                        Requested (Request url []), Slept 60, Requested (Request url [])]\<rparr>)"
    using download_pdf_gives_up [of w url e1 e2 e3 p] by simp
next
  let ?ds = "strftime ''%Y%m%d'' date"
  let ?rp = "\<lambda>i. network w (requests_made w + i) (summary_request ?ds)"
  assume a: "\<not> path_exists (pdf_path_of output_dir date) w \<and>
    (\<forall>i<MAX_RETRIES. http_failure (?rp i) \<noteq> None \<and> \<not> is_404 (?rp i))"
  have lt: "0 < MAX_RETRIES" "1 < MAX_RETRIES" "2 < MAX_RETRIES"
    by (simp_all add: MAX_RETRIES_def)
  have "http_failure (?rp 0) \<noteq> None" "http_failure (?rp 1) \<noteq> None" "http_failure (?rp 2) \<noteq> None"
    and n: "\<not> is_404 (?rp 0)" "\<not> is_404 (?rp 1)" "\<not> is_404 (?rp 2)"
    using a lt by blast+
  then obtain e1 e2 e3 where e: "http_failure (?rp 0) = Some e1" "http_failure (?rp 1) = Some e2"
    "http_failure (?rp 2) = Some e3"
    by auto
  have "fetch_summary [0..<MAX_RETRIES] ?ds w =
    (Inr (Returned (0, ''error'')),
     w\<lparr>trace := trace w @ [Requested (summary_request ?ds), Slept 30, Requested (summary_request ?ds),
                           Slept 60, Requested (summary_request ?ds),
                           Printed (FailedAfter 3 ?ds e3)]\<rparr>)"
    using e n by (intro fetch_summary_gives_up [of w ?ds e1 e2 e3]) simp_all
  then show "\<exists>e. http_failure (?rp 2) = Some e \<and> process_date date output_dir w =
          (Inr (0, ''error''),
           w\<lparr>trace := trace w @
              [Requested (summary_request ?ds), Slept 30,
               Requested (summary_request ?ds), Slept 60,
               Requested (summary_request ?ds),
               Printed (FailedAfter 3 ?ds e)]\<rparr>)"
    using a e by (simp add: process_date_def Let_def)
qed

theorem three_attempts_witness:
  "download_pdf (JStr ''a.pdf'') [''boe'', ''a''] (world_of offline) =
     (Inl (HTTPError ''timeout''),
      \<lparr>files = Map.empty, dirs = {}, network = offline,
        trace = [Requested (Request (JStr ''a.pdf'') []), Slept 30, Requested (Request (JStr ''a.pdf'') []),
                 Slept 60, Requested (Request (JStr ''a.pdf'') [])]\<rparr>) \<and>
   process_date day1 [''boe''] (world_of offline) =
     (Inr (0, ''error''),
      \<lparr>files = Map.empty, dirs = {}, network = offline,
        trace = [Requested (summary_request ''20240107''), Slept 30,
                 Requested (summary_request ''20240107''), Slept 60,
                 Requested (summary_request ''20240107''),
                 Printed (FailedAfter 3 ''20240107'' (HTTPError ''timeout''))]\<rparr>)"
  using three_attempts_two_delays [of "JStr ''a.pdf''" "[''boe'', ''a'']" "world_of offline"
      "''20240107''" "[''boe'']" day1]
  by (simp add: world_of_def offline_def day1_path day1_key path_exists_def is_dir_def)

text \<open>
  As stated, C4 has three retries with delays of 30, 60 and 90 seconds. With every request
  timing out, both loops stop after the third request, having slept 30 and 60 seconds.
\<close>

theorem no_third_delay:
  "sleeps (trace (snd (download_pdf (JStr ''a.pdf'') [''boe'', ''a''] (world_of offline)))) = [30, 60] \<and>
   sleeps (trace (snd (process_date day1 [''boe''] (world_of offline)))) = [30, 60]"
  by (simp add: download_pdf_def process_date_def Let_def path_exists_def is_dir_def day1_path day1_key
      MAX_RETRIES_def RETRY_DELAY_def upt_rec try_download_def try_summary_def session_get_def
      world_of_def offline_def sleep_def print_def requests_made_def)

text \<open>
  Claim C5, amended. The day's PDF is not on disk and the summary endpoint answers a
  request of \<^const>\<open>process_date\<close> (the first, or the one after \<open>k\<close> requests that
  failed and were retried) with a 2xx status and a JSON body that is shaped: a dict in
  which every field the program reads is missing or of the kind it expects. Then
  \<^const>\<open>process_date\<close> does not raise and returns the status \<open>success\<close>, with a count
  of at most the number of entries that bear a URL; a missing field counts as no entry, and
  when no entry bears a URL the outcome is \<open>(0, success)\<close> and the request answered 2xx
  is the last thing done.
\<close>

theorem shaped_summary_is_success:
  assumes "\<not> path_exists (pdf_path_of output_dir date) w"
    and "k < MAX_RETRIES"
    and "\<forall>i<k. http_failure (network w (requests_made w + i) (summary_request (strftime ''%Y%m%d'' date))) \<noteq> None \<and>
               \<not> is_404 (network w (requests_made w + i) (summary_request (strftime ''%Y%m%d'' date)))"
    and "network w (requests_made w + k) (summary_request (strftime ''%Y%m%d'' date)) = Response r"
    and "200 \<le> status_code r" and "status_code r < 300"
    and "json_body r = Some data"
    and "summary_shaped data"
  shows "(\<exists>n w'. process_date date output_dir w = (Inr (n, ''success''), w') \<and> 0 \<le> n \<and>
            n \<le> int (length (filter (\<lambda>d. truthy (entry_url d)) (diarios_of data)))) \<and>
         ((\<forall>d \<in> set (diarios_of data). \<not> truthy (entry_url d)) \<longrightarrow>
            process_date date output_dir w =
              (Inr (0, ''success''),
               w\<lparr>trace := trace w @
                  concat (map (\<lambda>i. [Requested (summary_request (strftime ''%Y%m%d'' date)),
                                      Slept (RETRY_DELAY * (i + 1))]) [0..<k]) @
                  [Requested (summary_request (strftime ''%Y%m%d'' date))]\<rparr>))"
proof -
  let ?ds = "strftime ''%Y%m%d'' date"
  let ?w1 = "w\<lparr>trace := trace w @
                  concat (map (\<lambda>i. [Requested (summary_request ?ds), Slept (RETRY_DELAY * (i + 1))]) [0..<k]) @
                  [Requested (summary_request ?ds)]\<rparr>"
  let ?pdfs = "map (\<lambda>d. (entry_url d, entry_identifier d))
                 (filter (\<lambda>d. truthy (entry_url d)) (diarios_of data))"
  have f: "fetch_summary [0..<MAX_RETRIES] ?ds w = (Inr (Data data), ?w1)"
    using fetch_summary_found [of 0 k w ?ds r data] assms(2-7) by simp
  have x: "extract_pdfs data = Inr ?pdfs"
    using assms(8) by (rule extract_pdfs_shaped)
  have nn: "data \<noteq> JNull"
    using assms(8) by (auto simp: summary_shaped_def Let_def)
  obtain n w' where d: "download_all ?pdfs date output_dir ?ds 0 ?w1 = (n, w')" by force
  have run: "process_date date output_dir w = (Inr (n, ''success''), w')"
    using assms(1) f x nn d by (simp add: process_date_def)
  from download_all_trace [OF d] have "0 \<le> n" "n \<le> int (length ?pdfs)" by auto
  then have first: "\<exists>n w'. process_date date output_dir w = (Inr (n, ''success''), w') \<and> 0 \<le> n \<and>
            n \<le> int (length (filter (\<lambda>d. truthy (entry_url d)) (diarios_of data)))"
    using run by auto
  have "process_date date output_dir w = (Inr (0, ''success''), ?w1)"
    if "\<forall>d \<in> set (diarios_of data). \<not> truthy (entry_url d)"
  proof -
    have "?pdfs = []" using that by (simp add: filter_empty_conv)
    then show ?thesis using run d by simp
  qed
  with first show ?thesis by blast
qed

theorem empty_summary_witness:
  "process_date day1 [''boe''] (world_of error_then_empty) =
     (Inr (0, ''success''),
      \<lparr>files = Map.empty, dirs = {}, network = error_then_empty,
        trace = [Requested (summary_request ''20240107''), Slept 30,
                 Requested (summary_request ''20240107'')]\<rparr>)"
proof -
  let ?w = "world_of error_then_empty"
  let ?rq = "summary_request (strftime ''%Y%m%d'' day1)"
  have h1: "\<not> path_exists (pdf_path_of [''boe''] day1) ?w"
    by (simp add: world_of_def day1_path path_exists_def is_dir_def)
  have h2: "(1::nat) < MAX_RETRIES"
    by (simp add: MAX_RETRIES_def)
  have h3: "\<forall>i<1. http_failure (network ?w (requests_made ?w + i) ?rq) \<noteq> None \<and>
              \<not> is_404 (network ?w (requests_made ?w + i) ?rq)"
    by (simp add: world_of_def requests_made_def error_then_empty_def status_response_def
        raise_for_status_def)
  have h4: "network ?w (requests_made ?w + 1) ?rq = Response (json_response (JObj []))"
    by (simp add: world_of_def requests_made_def error_then_empty_def)
  have h5: "200 \<le> status_code (json_response (JObj []))" "status_code (json_response (JObj [])) < 300"
    "json_body (json_response (JObj [])) = Some (JObj [])"
    by (simp_all add: json_response_def)
  have h6: "summary_shaped (JObj [])"
    by (simp add: summary_shaped_def diarios_of_def field_def)
  have h7: "\<forall>d \<in> set (diarios_of (JObj [])). \<not> truthy (entry_url d)"
    by (simp add: diarios_of_def field_def)
  from shaped_summary_is_success [OF h1 h2 h3 h4 h5 h6] h7 show ?thesis
    by (simp add: day1_key world_of_def RETRY_DELAY_def)
qed

text \<open>
  As stated, C5 covers every 2xx body. A body in which \<^verbatim>\<open>data\<close> is a list has an
  unexpected shape, and \<^const>\<open>process_date\<close> raises: \<^verbatim>\<open>[].get\<close> is an
  \<^verbatim>\<open>AttributeError\<close>, which nothing in \<^verbatim>\<open>process_date\<close> catches.
\<close>

theorem odd_summary_raises:
  "fst (process_date day1 [''boe'']
         (world_of (\<lambda>n rq. Response (json_response (JObj [(''data'', JArr [])]))))) =
     Inl AttributeError"
  by (simp add: process_date_def path_exists_def is_dir_def day1_path day1_key world_of_def
      fetch_summary_ok [where r = "json_response (JObj [(''data'', JArr [])])"]
      json_response_def extract_pdfs_def)

text \<open>
  Claim C6, amended. The statistics after the loop over the results are sums over the
  outcomes: \<open>downloaded\<close> is the sum of the counts, and \<open>no_boe\<close>, \<open>errors\<close> and
  \<open>cached\<close> are the numbers of outcomes with the status \<open>no_boe\<close>, \<open>error\<close> and
  \<open>cached\<close>. They are the same for the same outcomes in any order. An outcome with the
  status \<open>success\<close> adds its count to \<open>downloaded\<close> and is counted nowhere. These sums
  are what \<^const>\<open>download_boe_pdfs\<close> reports in the end, when the output directory
  could be made and the days have returned their outcomes.
\<close>

theorem statistics_are_sums:
  "fst (aggregate 0 results (length results) \<lparr>downloaded = 0, no_boe = 0, errors = 0, cached = 0\<rparr> w) =
     \<lparr>downloaded = sum_list (map fst results),
      no_boe = count_status ''no_boe'' results,
      errors = count_status ''error'' results,
      cached = count_status ''cached'' results\<rparr> \<and>
   (mset results' = mset results \<longrightarrow>
      fst (aggregate 0 results' (length results') \<lparr>downloaded = 0, no_boe = 0, errors = 0, cached = 0\<rparr> w') =
      fst (aggregate 0 results (length results) \<lparr>downloaded = 0, no_boe = 0, errors = 0, cached = 0\<rparr> w)) \<and>
   (0 < concurrency \<and> fst (mkdir output_dir w) = Inr () \<and>
    dates_from start_date end_date [] = Inr dates \<and>
    gather dates output_dir
      (print (Processing (length dates) (strftime ''%Y-%m-%d'' start_date) (strftime ''%Y-%m-%d'' end_date))
         (snd (mkdir output_dir w))) = (Inr results, w2) \<longrightarrow>
      (\<exists>w3. download_boe_pdfs start_date end_date concurrency output_dir w =
         Some (Inr (),
           report \<lparr>downloaded = sum_list (map fst results),
                   no_boe = count_status ''no_boe'' results,
                   errors = count_status ''error'' results,
                   cached = count_status ''cached'' results\<rparr> w3)))"
proof (intro conjI impI)
  show "fst (aggregate 0 results (length results) \<lparr>downloaded = 0, no_boe = 0, errors = 0, cached = 0\<rparr> w) =
     \<lparr>downloaded = sum_list (map fst results),
      no_boe = count_status ''no_boe'' results,
      errors = count_status ''error'' results,
      cached = count_status ''cached'' results\<rparr>"
    by (rule aggregate_sums)
next
  assume "mset results' = mset results"
  then show "fst (aggregate 0 results' (length results') \<lparr>downloaded = 0, no_boe = 0, errors = 0, cached = 0\<rparr> w') =
      fst (aggregate 0 results (length results) \<lparr>downloaded = 0, no_boe = 0, errors = 0, cached = 0\<rparr> w)"
    by (simp add: aggregate_sums count_status_mset sum_counts_mset)
next
  let ?zero = "\<lparr>downloaded = 0, no_boe = 0, errors = 0, cached = 0\<rparr>"
  let ?w1 = "print (Processing (length dates) (strftime ''%Y-%m-%d'' start_date) (strftime ''%Y-%m-%d'' end_date))
         (snd (mkdir output_dir w))"
  assume a: "0 < concurrency \<and> fst (mkdir output_dir w) = Inr () \<and>
    dates_from start_date end_date [] = Inr dates \<and>
    gather dates output_dir ?w1 = (Inr results, w2)"
  then obtain w0 where m: "mkdir output_dir w = (Inr (), w0)"
    by (cases "mkdir output_dir w") simp
  then have w0: "snd (mkdir output_dir w) = w0"
    by simp
  obtain st w3 where g: "aggregate 0 results (length dates) ?zero w2 = (st, w3)"
    by force
  then have "st = fst (aggregate 0 results (length dates) ?zero w2)"
    by simp
  then have st: "st = \<lparr>downloaded = sum_list (map fst results),
      no_boe = count_status ''no_boe'' results,
      errors = count_status ''error'' results,
      cached = count_status ''cached'' results\<rparr>"
    by (simp only: aggregate_sums)
  have "download_boe_pdfs start_date end_date concurrency output_dir w = Some (Inr (), report st w3)"
    using a g unfolding w0 by (simp add: download_boe_pdfs_def Let_def m)
  then show "\<exists>w3. download_boe_pdfs start_date end_date concurrency output_dir w =
         Some (Inr (),
           report \<lparr>downloaded = sum_list (map fst results),
                   no_boe = count_status ''no_boe'' results,
                   errors = count_status ''error'' results,
                   cached = count_status ''cached'' results\<rparr> w3)"
    unfolding st by blast
qed

theorem statistics_witness:
  "fst (aggregate 0 [(0, ''no_boe''), (2, ''success''), (0, ''cached'')] 3
          \<lparr>downloaded = 0, no_boe = 0, errors = 0, cached = 0\<rparr> cached_world) =
     \<lparr>downloaded = 2, no_boe = 1, errors = 0, cached = 1\<rparr> \<and>
   fst (aggregate 0 [(2, ''success''), (0, ''cached''), (0, ''no_boe'')] 3
          \<lparr>downloaded = 0, no_boe = 0, errors = 0, cached = 0\<rparr> cached_world) =
     \<lparr>downloaded = 2, no_boe = 1, errors = 0, cached = 1\<rparr> \<and>
   (\<exists>w3. download_boe_pdfs day1 day1 50 [''boe''] cached_world =
      Some (Inr (), report \<lparr>downloaded = 0, no_boe = 0, errors = 0, cached = 1\<rparr> w3))"
proof -
  let ?w1 = "print (Processing (length [day1]) (strftime ''%Y-%m-%d'' day1) (strftime ''%Y-%m-%d'' day1))
         (snd (mkdir [''boe''] cached_world))"
  have k: "mkdir [''boe''] cached_world = (Inr (), cached_world)"
    by (simp add: mkdir_def is_dir_def cached_world_def)
  then have m: "fst (mkdir [''boe''] cached_world) = Inr ()"
    by simp
  have d: "dates_from day1 day1 [] = Inr [day1]"
    by (simp add: dates_from.simps datetime_le_def add_day_def days_in_month_def day1_def)
  have "path_exists (pdf_path_of [''boe''] day1) ?w1"
    unfolding k by (simp add: day1_path print_def path_exists_def cached_world_def)
  then have "process_date day1 [''boe''] ?w1 = (Inr (0, ''cached''), ?w1)"
    by (simp add: process_date_def)
  then have g: "gather [day1] [''boe''] ?w1 = (Inr [(0, ''cached'')], ?w1)"
    by simp
  have c: "(0::int) < 50" by simp
  from statistics_are_sums [where results = "[(0, ''no_boe''), (2, ''success''), (0, ''cached'')]"
      and results' = "[(2, ''success''), (0, ''cached''), (0, ''no_boe'')]"
      and w = cached_world and w' = cached_world]
    statistics_are_sums [where results = "[(0, ''cached'')]" and w = cached_world
      and concurrency = 50 and start_date = day1 and end_date = day1 and dates = "[day1]"
      and output_dir = "[''boe'']" and ?w2.0 = ?w1] d g m
  show ?thesis
    by (simp add: count_status_def)
qed

text \<open>
  As stated, C6 has a tally for each of the four statuses. One day with the outcome
  \<open>(0, success)\<close> leaves every entry of the statistics at 0: no entry counts it.
\<close>

theorem success_is_not_tallied:
  "count_status ''success'' [(0, ''success'')] = 1 \<and>
   fst (aggregate 0 [(0, ''success'')] 1 \<lparr>downloaded = 0, no_boe = 0, errors = 0, cached = 0\<rparr>
          (world_of offline)) =
     \<lparr>downloaded = 0, no_boe = 0, errors = 0, cached = 0\<rparr>"
  by (simp add: count_status_def tally_def)

text \<open>
  Claim C7, amended. Whatever \<^const>\<open>process_date\<close> writes for a date, it writes to one
  path, in which the identifier of the entry does not occur: the output directory, the year
  as \<^verbatim>\<open>%Y\<close> prints it, the month and the day in two digits, and \<^verbatim>\<open>boe.pdf\<close>. No
  other file changes; every download that succeeds writes there (the count returned is the
  number of writes), so that the file ends with the bytes of the last download that
  succeeded and the bytes of the earlier ones are gone. From the year 1000 on the path is
  \<open>output_root/YYYY/MM/DD/boe.pdf\<close> with a year of four digits.
\<close>

theorem one_path_per_day:
  assumes "process_date date output_dir w = (res, w')"
  shows "(\<exists>new. trace w' = trace w @ new \<and>
     (\<forall>pb \<in> set (writes new).
         fst pb = output_dir @ [decimal (year date), zero_pad 2 (decimal (month date)),
                               zero_pad 2 (decimal (day date)), ''boe.pdf'']) \<and>
     files w' =
       (if writes new = [] then files w
        else (files w)(output_dir @ [decimal (year date), zero_pad 2 (decimal (month date)),
                                    zero_pad 2 (decimal (day date)), ''boe.pdf'']
                       \<mapsto> snd (last (writes new)))) \<and>
     (\<forall>n status. res = Inr (n, status) \<longrightarrow> n = int (length (writes new)))) \<and>
   (1000 \<le> year date \<longrightarrow>
      output_dir @ [decimal (year date), zero_pad 2 (decimal (month date)),
                    zero_pad 2 (decimal (day date)), ''boe.pdf''] =
      output_dir @ [zero_pad 4 (decimal (year date)), zero_pad 2 (decimal (month date)),
                    zero_pad 2 (decimal (day date)), ''boe.pdf''])"
proof (intro conjI impI)
  assume "1000 \<le> year date"
  then show "output_dir @ [decimal (year date), zero_pad 2 (decimal (month date)),
                    zero_pad 2 (decimal (day date)), ''boe.pdf''] =
      output_dir @ [zero_pad 4 (decimal (year date)), zero_pad 2 (decimal (month date)),
                    zero_pad 2 (decimal (day date)), ''boe.pdf'']"
    by (simp add: year_text_padded)
next
  have lt: "0 < MAX_RETRIES" by (simp add: MAX_RETRIES_def)
  let ?ds = "strftime ''%Y%m%d'' date"
  let ?rq = "Requested (summary_request ?ds)"
  let ?goal = "\<exists>new. trace w' = trace w @ new \<and>
     (\<forall>pb \<in> set (writes new).
         fst pb = output_dir @ [decimal (year date), zero_pad 2 (decimal (month date)),
                               zero_pad 2 (decimal (day date)), ''boe.pdf'']) \<and>
     files w' =
       (if writes new = [] then files w
        else (files w)(output_dir @ [decimal (year date), zero_pad 2 (decimal (month date)),
                                    zero_pad 2 (decimal (day date)), ''boe.pdf'']
                       \<mapsto> snd (last (writes new)))) \<and>
     (\<forall>n status. res = Inr (n, status) \<longrightarrow> n = int (length (writes new)))"
  have quiet: "\<exists>new. trace w1 = trace w @ new \<and> writes new = [] \<and> files w1 = files w \<and>
      (\<forall>outcome. r = Inr (Returned outcome) \<longrightarrow> fst outcome = 0)"
    if "fetch_summary [0..<MAX_RETRIES] ?ds w = (r, w1)" for r w1
    using fetch_summary_trace [OF that lt] by fastforce
  from assms show ?goal
  proof (cases rule: process_date_cases)
    case cached
    then show ?thesis by (intro exI [of _ "[]"]) simp
  next
    case (raised e)
    then show ?thesis using quiet [OF raised(2)] by auto
  next
    case (returned outcome)
    then show ?thesis using quiet [OF returned(2)] by auto
  next
    case null
    then show ?thesis using quiet [OF null(2)] by auto
  next
    case (malformed data e)
    then show ?thesis using quiet [OF malformed(2)] by auto
  next
    case (downloaded data pdfs w1 n)
    from quiet [OF downloaded(2)] obtain new1 where
      a: "trace w1 = trace w @ new1" "writes new1 = []" "files w1 = files w"
      by blast
    from download_all_trace [OF downloaded(5)] obtain new2 where
      b: "trace w' = trace w1 @ new2" "n = 0 + int (length (writes new2))"
        "\<forall>pb \<in> set (writes new2). fst pb = pdf_path_of output_dir date"
        "files w' = (if writes new2 = [] then files w1
                     else (files w1)(pdf_path_of output_dir date \<mapsto> snd (last (writes new2))))"
      by blast
    show ?thesis
      using a b downloaded(6)
      by (intro exI [of _ "new1 @ new2"]) (simp add: pdf_path_of_parts)
  qed
qed

theorem one_path_witness:
  "\<exists>new. trace w3_final = trace (world_of net3) @ new \<and>
     writes new = [([''boe'', ''2024'', ''01'', ''07'', ''boe.pdf''], ''%PDF-a''),
                   ([''boe'', ''2024'', ''01'', ''07'', ''boe.pdf''], ''%PDF-c'')] \<and>
     files w3_final = [[''boe'', ''2024'', ''01'', ''07'', ''boe.pdf''] \<mapsto> snd (last (writes new))]"
proof -
  from one_path_per_day [OF net3_run] obtain new where n:
    "trace w3_final = trace (world_of net3) @ new"
    "files w3_final =
       (if writes new = [] then files (world_of net3)
        else (files (world_of net3))([''boe''] @ [decimal (year day1),
          zero_pad 2 (decimal (month day1)), zero_pad 2 (decimal (day day1)), ''boe.pdf'']
            \<mapsto> snd (last (writes new))))"
    by blast
  have p: "[''boe''] @ [decimal (year day1), zero_pad 2 (decimal (month day1)),
             zero_pad 2 (decimal (day day1)), ''boe.pdf''] = [''boe'', ''2024'', ''01'', ''07'', ''boe.pdf'']"
    by (simp add: day1_def zero_pad_def decimal.simps)
  have "new = trace w3_final"
    using n(1) by (simp add: world_of_def)
  then have w: "writes new = [([''boe'', ''2024'', ''01'', ''07'', ''boe.pdf''], ''%PDF-a''),
                   ([''boe'', ''2024'', ''01'', ''07'', ''boe.pdf''], ''%PDF-c'')]"
    by (simp add: w3_final_def w3_second_def w3_first_def)
  have "files w3_final = [[''boe'', ''2024'', ''01'', ''07'', ''boe.pdf''] \<mapsto> snd (last (writes new))]"
    using n(2) unfolding p by (simp add: w world_of_def)
  with n(1) w show ?thesis by blast
qed

text \<open>
  As stated, C7 has the year in four digits for every date. The download for the first day
  of the year 999 is written to \<^verbatim>\<open>boe/999/01/01/boe.pdf\<close>, and nothing is at
  \<^verbatim>\<open>boe/0999/01/01/boe.pdf\<close> afterwards.
\<close>

theorem short_year_path:
  "writes (trace (snd (process_date day999 [''boe''] (world_of net999)))) =
     [([''boe'', ''999'', ''01'', ''01'', ''boe.pdf''], ''%PDF-a'')] \<and>
   files (snd (process_date day999 [''boe''] (world_of net999)))
     ([''boe''] @ [zero_pad 4 (decimal (year day999)), zero_pad 2 (decimal (month day999)),
                   zero_pad 2 (decimal (day day999)), ''boe.pdf'']) = None"
  unfolding day999_padded by (simp add: net999_run)

text \<open>
  Claim C8. The semaphore starts at the limit \<open>concurrency\<close>, and every task holds it
  for as long as its \<^verbatim>\<open>process_date\<close> runs. In every state the event loop can reach,
  whatever the order in which it resumes the tasks, the number of tasks inside
  \<^verbatim>\<open>process_date\<close> is at most the limit: it is the limit less the value of the
  semaphore.
\<close>

theorem semaphore_bounds_in_flight:
  assumes "sem_start concurrency dates = Some s0" and "sem_run schedule s0 = Some s"
  shows "int (in_flight s) \<le> concurrency \<and> int (in_flight s) + int (fst s) = concurrency"
proof -
  have s0: "0 \<le> concurrency" "s0 = (nat concurrency, map (\<lambda>date. Waiting) dates)"
    using assms(1) by (auto simp: sem_start_def split: if_splits)
  have "in_flight s0 = 0"
    by (simp add: s0 in_flight_def)
  with sem_run_invariant [OF assms(2)] have "in_flight s + fst s = nat concurrency"
    by (simp add: s0)
  with s0(1) show ?thesis by linarith
qed

theorem semaphore_witness:
  "int (in_flight (0, [Holding, Waiting])) \<le> 1 \<and> sem_step (Acquire 1) (0, [Holding, Waiting]) = None"
  using semaphore_bounds_in_flight [of 1 "[day1, day2]" "(1, [Waiting, Waiting])" "[Acquire 0, Advance 0]"
      "(0, [Holding, Waiting])"]
  by (simp add: sem_start_def)

text \<open>
  Claim C9, amended. When \<^verbatim>\<open>start_date > end_date\<close> (that is, \<^verbatim>\<open>start_date <=
  end_date\<close> is false), the concurrency limit is not negative, and
  \<^verbatim>\<open>output_dir.mkdir(exist_ok=True)\<close> succeeds, the list of dates is empty and
  \<^const>\<open>download_boe_pdfs\<close> returns without raising: after the \<^verbatim>\<open>mkdir\<close> it prints
  that 0 days are processed and that the four statistics are 0. The \<^verbatim>\<open>mkdir\<close>
  succeeds when the output directory is a directory already, or when nothing has its name
  and its parent is a directory.
\<close>

theorem empty_range_reports_zeros:
  assumes "\<not> datetime_le start_date end_date" and "0 \<le> concurrency"
    and "fst (mkdir output_dir w) = Inr ()"
  shows "dates_from start_date end_date [] = Inr [] \<and>
    download_boe_pdfs start_date end_date concurrency output_dir w =
    Some (Inr (),
      (snd (mkdir output_dir w))\<lparr>trace := trace (snd (mkdir output_dir w)) @
        [Printed (Processing 0 (strftime ''%Y-%m-%d'' start_date) (strftime ''%Y-%m-%d'' end_date)),
         Printed Completed, Printed (Downloaded 0), Printed (AlreadyCached 0),
         Printed (DaysWithoutBOE 0), Printed (Errors 0)]\<rparr>)"
proof -
  have none: "dates_from start_date end_date [] = Inr []"
    using assms(1) by (simp add: dates_from.simps)
  obtain w0 where m: "mkdir output_dir w = (Inr (), w0)"
    using assms(3) by (cases "mkdir output_dir w") simp
  then have w0: "snd (mkdir output_dir w) = w0"
    by simp
  have "download_boe_pdfs start_date end_date concurrency output_dir w =
    Some (Inr (),
      (snd (mkdir output_dir w))\<lparr>trace := trace (snd (mkdir output_dir w)) @
        [Printed (Processing 0 (strftime ''%Y-%m-%d'' start_date) (strftime ''%Y-%m-%d'' end_date)),
         Printed Completed, Printed (Downloaded 0), Printed (AlreadyCached 0),
         Printed (DaysWithoutBOE 0), Printed (Errors 0)]\<rparr>)"
    using assms(2) none unfolding w0
    by (simp add: download_boe_pdfs_def Let_def m) (simp add: report_def print_def)
  with none show ?thesis by simp
qed

theorem empty_range_witness:
  "download_boe_pdfs day2 day1 50 [''boe''] (world_of offline) =
    Some (Inr (),
      \<lparr>files = Map.empty, dirs = {[''boe'']}, network = offline,
        trace = [MadeDir [''boe''], Printed (Processing 0 ''2024-01-08'' ''2024-01-07''),
         Printed Completed, Printed (Downloaded 0), Printed (AlreadyCached 0),
         Printed (DaysWithoutBOE 0), Printed (Errors 0)]\<rparr>)"
proof -
  have h1: "\<not> datetime_le day2 day1"
    by (simp add: datetime_le_def day1_def day2_def)
  have h2: "(0::int) \<le> 50" by simp
  have m: "mkdir [''boe''] (world_of offline) =
      (Inr (), \<lparr>files = Map.empty, dirs = {[''boe'']}, network = offline, trace = [MadeDir [''boe'']]\<rparr>)"
    by (simp add: mkdir_def is_dir_def world_of_def)
  then have h3: "fst (mkdir [''boe''] (world_of offline)) = Inr ()"
    by simp
  from empty_range_reports_zeros [OF h1 h2 h3] show ?thesis
    by (simp add: m day1_def day2_def strftime.simps zero_pad_def decimal.simps)
qed

text \<open>
  As stated, C9 holds for every pair of dates with \<^verbatim>\<open>start_date > end_date\<close>,
  whatever the other arguments. With the limit \<open>-1\<close> (\<^verbatim>\<open>-c -1\<close> on the command line),
  \<^verbatim>\<open>asyncio.Semaphore(-1)\<close> raises \<^verbatim>\<open>ValueError\<close> before any statistics are
  reported; and with the output directory \<^verbatim>\<open>out/boe\<close> where there is no \<^verbatim>\<open>out\<close>,
  \<^verbatim>\<open>output_dir.mkdir(exist_ok=True)\<close>, which does not make parents, raises
  \<^verbatim>\<open>FileNotFoundError\<close> before anything else is done.
\<close>

theorem empty_range_can_raise:
  "\<not> datetime_le day2 day1 \<and>
   map_option fst (download_boe_pdfs day2 day1 (- 1) [''boe''] (world_of offline)) = Some (Inl ValueError) \<and>
   download_boe_pdfs day2 day1 50 [''out'', ''boe''] (world_of offline) =
     Some (Inl FileNotFoundError, world_of offline)"
  by (simp add: download_boe_pdfs_def Let_def dates_from.simps datetime_le_def day1_def day2_def
      mkdir_def is_dir_def file_above_def world_of_def)

text \<open>
  Claim C10. An outcome \<open>(n, status)\<close> that \<^const>\<open>process_date\<close> returns has one of the
  four statuses \<open>cached\<close>, \<open>no_boe\<close>, \<open>success\<close> and \<open>error\<close>; \<open>n\<close> is not negative;
  \<open>n\<close> is 0 unless the status is \<open>success\<close>; and with \<open>success\<close>, \<open>n\<close> is at most the
  number of entries with a URL that were read from the day's summary.
\<close>

theorem day_outcome_in_range:
  assumes "process_date date output_dir w = (Inr (n, status), w')"
  shows "(status = ''cached'' \<or> status = ''no_boe'' \<or> status = ''success'' \<or> status = ''error'') \<and>
     0 \<le> n \<and> (status \<noteq> ''success'' \<longrightarrow> n = 0) \<and>
     (status = ''success'' \<longrightarrow>
        (\<exists>data pdfs w1.
            fetch_summary [0..<MAX_RETRIES] (strftime ''%Y%m%d'' date) w = (Inr (Data data), w1) \<and>
            extract_pdfs data = Inr pdfs \<and> n \<le> int (length pdfs)))"
proof -
  have lt: "0 < MAX_RETRIES" by (simp add: MAX_RETRIES_def)
  from assms show ?thesis
  proof (cases rule: process_date_cases)
    case cached
    then show ?thesis by simp
  next
    case (raised e)
    then show ?thesis by simp
  next
    case (returned outcome)
    then show ?thesis
      using fetch_summary_trace [OF returned(2) lt] by auto
  next
    case null
    then show ?thesis by simp
  next
    case (malformed data e)
    then show ?thesis by simp
  next
    case (downloaded data pdfs w1 m)
    from download_all_trace [OF downloaded(5)]
    have "0 \<le> m" "m \<le> int (length pdfs)" by auto
    then show ?thesis
      using downloaded by auto
  qed
qed

theorem day_outcome_witness:
  "\<exists>data pdfs w1.
      fetch_summary [0..<MAX_RETRIES] ''20240107'' (world_of net3) = (Inr (Data data), w1) \<and>
      extract_pdfs data = Inr pdfs \<and> (2::int) \<le> int (length pdfs)"
  using day_outcome_in_range [OF net3_run] by (simp add: day1_key)

end
